theory Spec2Isabelle
  imports Main
begin

section \<open>Python values used by the address book\<close>

text \<open>
  A Python \<^verbatim>\<open>str\<close> is a sequence of Unicode code points, so it is modelled as a list of
  natural numbers (HOL's \<^typ>\<open>char\<close> is a byte and could not hold the non-ASCII digits that
  \<^verbatim>\<open>\d\<close> matches). \<open>ascii\<close> turns a HOL string literal into such a sequence.
  Exception messages are plain HOL strings.
\<close>

type_synonym str = "nat list"

definition ascii :: "string \<Rightarrow> str" where
  "ascii s = map of_char s"

datatype error = ValueError string

text \<open>
  The effect of a method call on the object it mutates: it returns a result and leaves
  the object in a state, or it raises and leaves the object in a state.
\<close>

datatype ('a, 's) outcome = Returned 'a 's | Raised error 's

fun state_after :: "('a, 's) outcome \<Rightarrow> 's" where
  "state_after (Returned _ s) = s"
| "state_after (Raised _ s) = s"

subsection \<open>Unicode decimal digits\<close>

text \<open>
  In a \<^verbatim>\<open>str\<close> pattern, \<^verbatim>\<open>\d\<close> matches every character of Unicode category Nd, and
  \<^verbatim>\<open>int()\<close> reads each such character as its digit value. The table belongs to the
  interpreter (\<^verbatim>\<open>unicodedata\<close>, Unicode 14.0.0 in CPython 3.11), not to the repository:
  each entry is the first code point of a run of digits and the length of the run; the
  digit value of a member is its offset in the run modulo 10. The ASCII digits are the
  first run.
\<close>

definition Nd_blocks :: "(nat \<times> nat) list" where
  "Nd_blocks =
    [(48, 10), (1632, 10), (1776, 10), (1984, 10), (2406, 10), (2534, 10), (2662, 10),
     (2790, 10), (2918, 10), (3046, 10), (3174, 10), (3302, 10), (3430, 10), (3558, 10),
     (3664, 10), (3792, 10), (3872, 10), (4160, 10), (4240, 10), (6112, 10), (6160, 10),
     (6470, 10), (6608, 10), (6784, 10), (6800, 10), (6992, 10), (7088, 10), (7232, 10),
     (7248, 10), (42528, 10), (43216, 10), (43264, 10), (43472, 10), (43504, 10),
     (43600, 10), (44016, 10), (65296, 10), (66720, 10), (68912, 10), (69734, 10),
     (69872, 10), (69942, 10), (70096, 10), (70384, 10), (70736, 10), (70864, 10),
     (71248, 10), (71360, 10), (71472, 10), (71904, 10), (72016, 10), (72784, 10),
     (73040, 10), (73120, 10), (92768, 10), (92864, 10), (93008, 10), (120782, 50),
     (123200, 10), (123632, 10), (125264, 10), (130032, 10)]"

fun block_digit :: "(nat \<times> nat) list \<Rightarrow> nat \<Rightarrow> nat option" where
  "block_digit [] c = None"
| "block_digit ((lo, n) # bs) c =
     (if lo \<le> c \<and> c < lo + n then Some ((c - lo) mod 10) else block_digit bs c)"

definition digit_value :: "nat \<Rightarrow> nat option" where
  "digit_value c = block_digit Nd_blocks c"

definition is_decimal :: "nat \<Rightarrow> bool" where
  "is_decimal c = (digit_value c \<noteq> None)"

section \<open>Fields\<close>

text \<open>
  \<^verbatim>\<open>class Field\<close> holds one attribute \<^verbatim>\<open>value\<close>; \<^verbatim>\<open>Name\<close>, \<^verbatim>\<open>Phone\<close> and \<^verbatim>\<open>Birthday\<close>
  are its subclasses. The attribute is named after its class here.
\<close>

record Name =
  name_value :: str

record Phone =
  phone_value :: str

subsection \<open>Phone\<close>

text \<open>\<^verbatim>\<open>re.fullmatch(r'\d{10}', value)\<close>: the whole string is ten characters, each matched by \<^verbatim>\<open>\d\<close>.\<close>

definition fullmatch_d10 :: "str \<Rightarrow> bool" where
  "fullmatch_d10 v = (length v = 10 \<and> list_all is_decimal v)"

definition Phone_validate :: "str \<Rightarrow> error + unit" where
  "Phone_validate v =
     (if \<not> fullmatch_d10 v then Inl (ValueError ''Phone number must be 10 digits.'')
      else Inr ())"

text \<open>
  \<^verbatim>\<open>Phone.__init__\<close> stores the value and then validates it; when validation raises, the
  constructor call yields no object.
\<close>

definition Phone_init :: "str \<Rightarrow> error + Phone" where
  "Phone_init v =
     (let self = \<lparr>phone_value = v\<rparr>
      in case Phone_validate v of Inl e \<Rightarrow> Inl e | Inr _ \<Rightarrow> Inr self)"

section \<open>Calendar dates\<close>

text \<open>
  \<^verbatim>\<open>datetime.date\<close>: three integer attributes. The arithmetic below is the interpreter's
  (\<^verbatim>\<open>_pydatetime.py\<close>): the proleptic Gregorian calendar, 1 January of year 1 being day 1.
\<close>

record date =
  year :: int
  month :: int
  day :: int

definition MINYEAR :: int where "MINYEAR = 1"
definition MAXYEAR :: int where "MAXYEAR = 9999"

definition DAYS_IN_MONTH :: "int list" where
  "DAYS_IN_MONTH = [-1, 31, 28, 31, 30, 31, 30, 31, 31, 30, 31, 30, 31]"

definition DAYS_BEFORE_MONTH :: "int list" where
  "DAYS_BEFORE_MONTH = [-1, 0, 31, 59, 90, 120, 151, 181, 212, 243, 273, 304, 334]"

definition is_leap :: "int \<Rightarrow> bool" where
  "is_leap y = (y mod 4 = 0 \<and> (y mod 100 \<noteq> 0 \<or> y mod 400 = 0))"

definition days_before_year :: "int \<Rightarrow> int" where
  "days_before_year yr = (let y = yr - 1 in y * 365 + y div 4 - y div 100 + y div 400)"

text \<open>Called with \<open>1 \<le> m \<le> 12\<close> only (an assertion in the interpreter's code).\<close>

definition days_in_month :: "int \<Rightarrow> int \<Rightarrow> int" where
  "days_in_month y m = (if m = 2 \<and> is_leap y then 29 else DAYS_IN_MONTH ! nat m)"

definition days_before_month :: "int \<Rightarrow> int \<Rightarrow> int" where
  "days_before_month y m = DAYS_BEFORE_MONTH ! nat m + (if m > 2 \<and> is_leap y then 1 else 0)"

definition ymd2ord :: "int \<Rightarrow> int \<Rightarrow> int \<Rightarrow> int" where
  "ymd2ord y m d = days_before_year y + days_before_month y m + d"

text \<open>
  C's \<^verbatim>\<open>%i\<close>, with which CPython writes the year into its message: the decimal numeral
  of an integer.
\<close>

definition digit_chars :: string where
  "digit_chars = ''0123456789''"

fun decimal :: "nat \<Rightarrow> string" where
  "decimal n =
     (if n < 10 then [digit_chars ! n] else decimal (n div 10) @ [digit_chars ! (n mod 10)])"

declare decimal.simps [simp del]

definition format_i :: "int \<Rightarrow> string" where
  "format_i i = (if i < 0 then CHR ''-'' # decimal (nat (- i)) else decimal (nat i))"

text \<open>The checks of the \<^verbatim>\<open>date\<close> constructor, in its order, with CPython's messages.\<close>

definition date_new :: "int \<Rightarrow> int \<Rightarrow> int \<Rightarrow> error + date" where
  "date_new y m d =
     (if \<not> (MINYEAR \<le> y \<and> y \<le> MAXYEAR)
        then Inl (ValueError (''year '' @ format_i y @ '' is out of range''))
      else if \<not> (1 \<le> m \<and> m \<le> 12) then Inl (ValueError ''month must be in 1..12'')
      else if \<not> (1 \<le> d \<and> d \<le> days_in_month y m)
        then Inl (ValueError ''day is out of range for month'')
      else Inr \<lparr>year = y, month = m, day = d\<rparr>)"

text \<open>The dates that exist as \<^verbatim>\<open>date\<close> objects are those the constructor accepts.\<close>

definition valid_date :: "date \<Rightarrow> bool" where
  "valid_date dt =
     (MINYEAR \<le> year dt \<and> year dt \<le> MAXYEAR \<and> 1 \<le> month dt \<and> month dt \<le> 12 \<and>
      1 \<le> day dt \<and> day dt \<le> days_in_month (year dt) (month dt))"

definition toordinal :: "date \<Rightarrow> int" where
  "toordinal dt = ymd2ord (year dt) (month dt) (day dt)"

text \<open>\<^verbatim>\<open>d.replace(year=y)\<close> builds a new date through the constructor.\<close>

definition replace_year :: "date \<Rightarrow> int \<Rightarrow> error + date" where
  "replace_year dt y = date_new y (month dt) (day dt)"

text \<open>\<^verbatim>\<open>(a - b).days\<close> for two dates.\<close>

definition sub_days :: "date \<Rightarrow> date \<Rightarrow> int" where
  "sub_days a b = toordinal a - toordinal b"

subsection \<open>Parsing with the format %d.%m.%Y\<close>

text \<open>
  \<^verbatim>\<open>datetime.strptime(value, "%d.%m.%Y")\<close> compiles the format to the regular expression
  \<^verbatim>\<open>(?P<d>3[0-1]|[1-2]\d|0[1-9]|[1-9]| [1-9])\.(?P<m>1[0-2]|0[1-9]|[1-9])\.(?P<Y>\d\d\d\d)\<close>
  (\<^verbatim>\<open>_strptime.py\<close>), matches it at the start of the string, and raises when the match
  fails or does not reach the end of the string. Each group below lists its matches in
  the order the backtracking matcher tries them, as pairs of the matched text and the
  rest of the input. Code points: space 32, full stop 46, digits 0 to 9 are 48 to 57.
\<close>

definition group_d :: "str \<Rightarrow> (str \<times> str) list" where
  "group_d s =
     (case s of
        a # b # r \<Rightarrow>
          (if a = 51 \<and> 48 \<le> b \<and> b \<le> 49 then [([a, b], r)] else []) @
          (if 49 \<le> a \<and> a \<le> 50 \<and> is_decimal b then [([a, b], r)] else []) @
          (if a = 48 \<and> 49 \<le> b \<and> b \<le> 57 then [([a, b], r)] else [])
      | _ \<Rightarrow> []) @
     (case s of a # r \<Rightarrow> if 49 \<le> a \<and> a \<le> 57 then [([a], r)] else [] | [] \<Rightarrow> []) @
     (case s of
        a # b # r \<Rightarrow> if a = 32 \<and> 49 \<le> b \<and> b \<le> 57 then [([a, b], r)] else []
      | _ \<Rightarrow> [])"

definition group_m :: "str \<Rightarrow> (str \<times> str) list" where
  "group_m s =
     (case s of
        a # b # r \<Rightarrow>
          (if a = 49 \<and> 48 \<le> b \<and> b \<le> 50 then [([a, b], r)] else []) @
          (if a = 48 \<and> 49 \<le> b \<and> b \<le> 57 then [([a, b], r)] else [])
      | _ \<Rightarrow> []) @
     (case s of a # r \<Rightarrow> if 49 \<le> a \<and> a \<le> 57 then [([a], r)] else [] | [] \<Rightarrow> [])"

definition group_Y :: "str \<Rightarrow> (str \<times> str) list" where
  "group_Y s =
     (case s of
        a # b # c # d # r \<Rightarrow>
          if is_decimal a \<and> is_decimal b \<and> is_decimal c \<and> is_decimal d
          then [([a, b, c, d], r)] else []
      | _ \<Rightarrow> [])"

definition literal :: "nat \<Rightarrow> str \<Rightarrow> str list" where
  "literal c s = (case s of a # r \<Rightarrow> if a = c then [r] else [] | [] \<Rightarrow> [])"

text \<open>All matches of the whole expression at the start of \<open>s\<close>, in the matcher's order.\<close>

definition format_regex_matches :: "str \<Rightarrow> (str \<times> str \<times> str \<times> str) list" where
  "format_regex_matches s =
     concat (map (\<lambda>(d, s1).
       concat (map (\<lambda>s2.
         concat (map (\<lambda>(m, s3).
           concat (map (\<lambda>s4.
             map (\<lambda>(y, rest). (d, m, y, rest)) (group_Y s4))
           (literal 46 s3)))
         (group_m s2)))
       (literal 46 s1)))
     (group_d s))"

text \<open>
  \<^verbatim>\<open>int(text)\<close> on a matched group: leading spaces are stripped (the day group may
  start with one; a group holds no other white space) and every remaining character
  must be a decimal digit, read by its digit value.
\<close>

fun int_digits :: "int \<Rightarrow> str \<Rightarrow> int option" where
  "int_digits acc [] = Some acc"
| "int_digits acc (c # cs) =
     (case digit_value c of None \<Rightarrow> None | Some v \<Rightarrow> int_digits (10 * acc + int v) cs)"

definition py_int :: "str \<Rightarrow> int option" where
  "py_int s =
     (let t = dropWhile (\<lambda>c. c = 32) s in if t = [] then None else int_digits 0 t)"

text \<open>
  The messages of \<^verbatim>\<open>strptime\<close> quote the input; they are shortened here, and the only
  caller discards them.
\<close>

definition strptime_dmY :: "str \<Rightarrow> error + date" where
  "strptime_dmY s =
     (case format_regex_matches s of
        [] \<Rightarrow> Inl (ValueError ''time data does not match format'')
      | (d, m, y, rest) # _ \<Rightarrow>
          if rest \<noteq> [] then Inl (ValueError ''unconverted data remains'')
          else (case (py_int y, py_int m, py_int d) of
                  (Some yv, Some mv, Some dv) \<Rightarrow> date_new yv mv dv
                | _ \<Rightarrow> Inl (ValueError ''invalid literal for int()'')))"

subsection \<open>Formatting with the format %d.%m.%Y\<close>

text \<open>
  \<^verbatim>\<open>strftime('%d.%m.%Y')\<close>, used by \<^verbatim>\<open>Record.__str__\<close> and \<^verbatim>\<open>show_birthday\<close>: day and month
  as two digits. The year is the platform's \<^verbatim>\<open>%Y\<close>: four digits padded with zeros where
  \<open>pad_year\<close> holds, and without leading zeros otherwise (glibc).
\<close>

definition two_digits :: "int \<Rightarrow> str" where
  "two_digits n = [48 + nat (n div 10 mod 10), 48 + nat (n mod 10)]"

definition four_digits :: "int \<Rightarrow> str" where
  "four_digits n =
     [48 + nat (n div 1000 mod 10), 48 + nat (n div 100 mod 10),
      48 + nat (n div 10 mod 10), 48 + nat (n mod 10)]"

definition year_digits :: "bool \<Rightarrow> int \<Rightarrow> str" where
  "year_digits pad_year y =
     (if pad_year \<or> 1000 \<le> y then four_digits y
      else if 100 \<le> y then tl (four_digits y)
      else if 10 \<le> y then two_digits y
      else [48 + nat y])"

definition strftime_dmY :: "bool \<Rightarrow> date \<Rightarrow> str" where
  "strftime_dmY pad_year dt =
     two_digits (day dt) @ [46] @ two_digits (month dt) @ [46] @ year_digits pad_year (year dt)"

subsection \<open>Birthday\<close>

record Birthday =
  birthday_value :: date

text \<open>\<^verbatim>\<open>Birthday.__init__\<close>: every \<^verbatim>\<open>ValueError\<close> of the parse is replaced by one message.\<close>

definition Birthday_init :: "str \<Rightarrow> error + Birthday" where
  "Birthday_init v =
     (case strptime_dmY v of
        Inl (ValueError _) \<Rightarrow> Inl (ValueError ''Invalid date format. Use DD.MM.YYYY'')
      | Inr dt \<Rightarrow> Inr \<lparr>birthday_value = dt\<rparr>)"

section \<open>Record\<close>

record Record =
  name :: Name
  phones :: "Phone list"
  birthday :: "Birthday option"

definition Record_init :: "str \<Rightarrow> Record" where
  "Record_init n = \<lparr>name = \<lparr>name_value = n\<rparr>, phones = [], birthday = None\<rparr>"

text \<open>\<^verbatim>\<open>self.phones.append(Phone(phone))\<close>: the constructor runs before the append.\<close>

definition add_phone :: "Record \<Rightarrow> str \<Rightarrow> (unit, Record) outcome" where
  "add_phone self phone =
     (case Phone_init phone of
        Inl e \<Rightarrow> Raised e self
      | Inr p \<Rightarrow> Returned () (self\<lparr>phones := phones self @ [p]\<rparr>))"

definition remove_phone :: "Record \<Rightarrow> str \<Rightarrow> (unit, Record) outcome" where
  "remove_phone self phone =
     Returned () (self\<lparr>phones := [p \<leftarrow> phones self. phone_value p \<noteq> phone]\<rparr>)"

text \<open>
  The loop of \<^verbatim>\<open>edit_phone\<close> over the phone list: the first phone whose value is
  \<open>old_phone\<close> gets the new value, then the new value is validated; the state returned
  is the list as the loop leaves it.
\<close>

fun edit_phone_loop :: "Phone list \<Rightarrow> str \<Rightarrow> str \<Rightarrow> (unit, Phone list) outcome" where
  "edit_phone_loop [] old_phone new_phone = Raised (ValueError ''Phone number not found.'') []"
| "edit_phone_loop (p # ps) old_phone new_phone =
     (if phone_value p = old_phone then
        (let p' = p\<lparr>phone_value := new_phone\<rparr>
         in case Phone_validate new_phone of
              Inl e \<Rightarrow> Raised e (p' # ps)
            | Inr _ \<Rightarrow> Returned () (p' # ps))
      else
        (case edit_phone_loop ps old_phone new_phone of
           Returned u ps' \<Rightarrow> Returned u (p # ps')
         | Raised e ps' \<Rightarrow> Raised e (p # ps')))"

definition edit_phone :: "Record \<Rightarrow> str \<Rightarrow> str \<Rightarrow> (unit, Record) outcome" where
  "edit_phone self old_phone new_phone =
     (case edit_phone_loop (phones self) old_phone new_phone of
        Returned u ps \<Rightarrow> Returned u (self\<lparr>phones := ps\<rparr>)
      | Raised e ps \<Rightarrow> Raised e (self\<lparr>phones := ps\<rparr>))"

text \<open>\<^verbatim>\<open>self.birthday = Birthday(birthday)\<close>: the constructor runs before the assignment.\<close>

definition add_birthday :: "Record \<Rightarrow> str \<Rightarrow> (unit, Record) outcome" where
  "add_birthday self b =
     (case Birthday_init b of
        Inl e \<Rightarrow> Raised e self
      | Inr v \<Rightarrow> Returned () (self\<lparr>birthday := Some v\<rparr>))"

section \<open>AddressBook\<close>

text \<open>
  \<^verbatim>\<open>AddressBook(UserDict)\<close>: its \<^verbatim>\<open>data\<close> is a \<^verbatim>\<open>dict\<close>, which iterates in insertion order,
  so it is an association list with the oldest key first. Assigning to a key that is
  present keeps the key's position; assigning to a new key appends.
\<close>

type_synonym AddressBook = "(str \<times> Record) list"

fun setitem :: "('k \<times> 'v) list \<Rightarrow> 'k \<Rightarrow> 'v \<Rightarrow> ('k \<times> 'v) list" where
  "setitem [] k v = [(k, v)]"
| "setitem ((k', v') # kvs) k v =
     (if k' = k then (k', v) # kvs else (k', v') # setitem kvs k v)"

definition delitem :: "('k \<times> 'v) list \<Rightarrow> 'k \<Rightarrow> ('k \<times> 'v) list" where
  "delitem kvs k = [kv \<leftarrow> kvs. fst kv \<noteq> k]"

definition keys :: "('k \<times> 'v) list \<Rightarrow> 'k list" where
  "keys kvs = map fst kvs"

definition values_of :: "('k \<times> 'v) list \<Rightarrow> 'v list" where
  "values_of kvs = map snd kvs"

definition add_record :: "AddressBook \<Rightarrow> Record \<Rightarrow> (unit, AddressBook) outcome" where
  "add_record self record = Returned () (setitem self (name_value (name record)) record)"

definition delete :: "AddressBook \<Rightarrow> str \<Rightarrow> (unit, AddressBook) outcome" where
  "delete self n =
     (if n \<in> set (keys self) then Returned () (delitem self n)
      else Raised (ValueError ''Contact not found.'') self)"

subsection \<open>Upcoming birthdays\<close>

text \<open>
  Lines 83 to 87 of \<^verbatim>\<open>get_upcoming_birthdays\<close>, for one birthday: the number of days from
  \<open>today\<close> to the birthday's next occurrence. Both \<^verbatim>\<open>replace\<close> calls can raise.
\<close>

definition days_until_birthday :: "date \<Rightarrow> date \<Rightarrow> error + int" where
  "days_until_birthday today b =
     (case replace_year b (year today) of
        Inl e \<Rightarrow> Inl e
      | Inr birthday_this_year \<Rightarrow>
          (let days = sub_days birthday_this_year today
           in if days < 0 then
                (case replace_year birthday_this_year (year today + 1) of
                   Inl e \<Rightarrow> Inl e
                 | Inr birthday_next_year \<Rightarrow> Inr (sub_days birthday_next_year today))
              else Inr days))"

text \<open>
  The loop over \<^verbatim>\<open>self.data.values()\<close>; \<open>upcoming_birthdays\<close> is the list built so far. A
  \<^verbatim>\<open>Birthday\<close> object defines neither \<^verbatim>\<open>__bool__\<close> nor \<^verbatim>\<open>__len__\<close>, so \<^verbatim>\<open>if record.birthday\<close>
  tests only that the attribute is not \<^verbatim>\<open>None\<close>.
\<close>

fun upcoming_loop :: "date \<Rightarrow> Record list \<Rightarrow> Record list \<Rightarrow> error + Record list" where
  "upcoming_loop today [] upcoming_birthdays = Inr upcoming_birthdays"
| "upcoming_loop today (record # rest) upcoming_birthdays =
     (case birthday record of
        None \<Rightarrow> upcoming_loop today rest upcoming_birthdays
      | Some b \<Rightarrow>
          (case days_until_birthday today (birthday_value b) of
             Inl e \<Rightarrow> Inl e
           | Inr days \<Rightarrow>
               if 0 \<le> days \<and> days \<le> 7
               then upcoming_loop today rest (upcoming_birthdays @ [record])
               else upcoming_loop today rest upcoming_birthdays))"

text \<open>
  \<open>today\<close> stands for \<^verbatim>\<open>datetime.now().date()\<close>. The method assigns to no attribute of the
  book or of a record, so the book it leaves is the book it was given.
\<close>

definition get_upcoming_birthdays :: "date \<Rightarrow> AddressBook \<Rightarrow> (Record list, AddressBook) outcome" where
  "get_upcoming_birthdays today self =
     (case upcoming_loop today (values_of self) [] of
        Inl e \<Rightarrow> Raised e self
      | Inr upcoming_birthdays \<Rightarrow> Returned upcoming_birthdays self)"

subsection \<open>Sequences of operations\<close>

text \<open>
  The operations the command handlers perform on a book: adding a record, deleting a
  name, and calling a method of the record stored under a name (the handlers look the
  record up with \<^verbatim>\<open>find\<close> and do nothing when it is absent). A method mutates the stored
  object in place, so the state it leaves is written back under the same key.
\<close>

datatype operation =
  AddRecord Record
| Delete str
| AddPhone str str
| RemovePhone str str
| EditPhone str str str
| AddBirthday str str

definition on_record ::
  "AddressBook \<Rightarrow> str \<Rightarrow> (Record \<Rightarrow> (unit, Record) outcome) \<Rightarrow> (unit, AddressBook) outcome" where
  "on_record book n method =
     (case map_of book n of
        None \<Rightarrow> Returned () book
      | Some record \<Rightarrow>
          (case method record of
             Returned u record' \<Rightarrow> Returned u (setitem book n record')
           | Raised e record' \<Rightarrow> Raised e (setitem book n record')))"

fun perform :: "AddressBook \<Rightarrow> operation \<Rightarrow> (unit, AddressBook) outcome" where
  "perform book (AddRecord record) = add_record book record"
| "perform book (Delete n) = delete book n"
| "perform book (AddPhone n phone) = on_record book n (\<lambda>r. add_phone r phone)"
| "perform book (RemovePhone n phone) = on_record book n (\<lambda>r. remove_phone r phone)"
| "perform book (EditPhone n old_phone new_phone) =
     on_record book n (\<lambda>r. edit_phone r old_phone new_phone)"
| "perform book (AddBirthday n b) = on_record book n (\<lambda>r. add_birthday r b)"

text \<open>The books that sequences of operations build from the empty \<^verbatim>\<open>AddressBook()\<close>.\<close>

inductive reachable :: "AddressBook \<Rightarrow> bool" where
  empty: "reachable []"
| step: "reachable book \<Longrightarrow> reachable (state_after (perform book op))"

section \<open>Predicates of the statements\<close>

text \<open>Every entry of the book is stored under the name of its record.\<close>

definition keyed_by_name :: "AddressBook \<Rightarrow> bool" where
  "keyed_by_name book = (\<forall>(k, r) \<in> set book. name_value (name r) = k)"

text \<open>
  The condition under which the loop of \<^verbatim>\<open>get_upcoming_birthdays\<close> appends a record
  (lines 82 to 89), given that the loop reaches the record and its body does not raise.
\<close>

definition appended :: "date \<Rightarrow> Record \<Rightarrow> bool" where
  "appended today record =
     (case birthday record of
        None \<Rightarrow> False
      | Some b \<Rightarrow>
          (case days_until_birthday today (birthday_value b) of
             Inl e \<Rightarrow> False
           | Inr days \<Rightarrow> 0 \<le> days \<and> days \<le> 7))"

text \<open>
  The specification's computation for one birthday, in its words: the candidate is the
  birthday with its year replaced by the year of \<open>today\<close>; \<open>delta\<close> is the candidate
  minus \<open>today\<close> in days; when \<open>delta\<close> is negative, the candidate is recomputed with
  the following year and \<open>delta\<close> with it. The candidate is taken by its day number, so
  this definition does not ask whether the candidate exists in the calendar.
\<close>

definition spec_final_delta :: "date \<Rightarrow> date \<Rightarrow> int" where
  "spec_final_delta today b =
     (let delta = ymd2ord (year today) (month b) (day b) - toordinal today
      in if delta < 0 then ymd2ord (year today + 1) (month b) (day b) - toordinal today
         else delta)"

text \<open>
  The string that writes a day, a month and a year as \<^verbatim>\<open>DD.MM.YYYY\<close> with the ASCII digits
  \<open>d1 d2\<close>, \<open>m1 m2\<close> and \<open>y1 y2 y3 y4\<close>, and the date the string names.
\<close>

definition DDMMYYYY :: "nat \<Rightarrow> nat \<Rightarrow> nat \<Rightarrow> nat \<Rightarrow> nat \<Rightarrow> nat \<Rightarrow> nat \<Rightarrow> nat \<Rightarrow> str" where
  "DDMMYYYY d1 d2 m1 m2 y1 y2 y3 y4 =
     [48 + d1, 48 + d2, 46, 48 + m1, 48 + m2, 46, 48 + y1, 48 + y2, 48 + y3, 48 + y4]"

definition named_date :: "nat \<Rightarrow> nat \<Rightarrow> nat \<Rightarrow> nat \<Rightarrow> nat \<Rightarrow> nat \<Rightarrow> nat \<Rightarrow> nat \<Rightarrow> date" where
  "named_date d1 d2 m1 m2 y1 y2 y3 y4 =
     \<lparr>year = int (1000 * y1 + 100 * y2 + 10 * y3 + y4), month = int (10 * m1 + m2),
      day = int (10 * d1 + d2)\<rparr>"

text \<open>
  The candidate dates of the specification's computation are days of the calendar: the
  day of the birthday exists in its month in the year of \<open>today\<close> and, when that
  candidate lies before \<open>today\<close>, in the following year as well. (Whether the years are
  within the range of \<^verbatim>\<open>date\<close> is a separate matter.)
\<close>

definition candidates_exist :: "date \<Rightarrow> date \<Rightarrow> bool" where
  "candidates_exist today b =
     (day b \<le> days_in_month (year today) (month b) \<and>
      (ymd2ord (year today) (month b) (day b) - toordinal today < 0 \<longrightarrow>
         day b \<le> days_in_month (year today + 1) (month b)))"

text \<open>The birthday's candidate of this year lies before \<open>today\<close> (the first \<open>delta\<close> is negative).\<close>

definition passed :: "date \<Rightarrow> date \<Rightarrow> bool" where
  "passed today b = (ymd2ord (year today) (month b) (day b) - toordinal today < 0)"

text \<open>The specification's condition for a record: a birthday is set and the final \<open>delta\<close> is from 0 to 7.\<close>

definition in_window :: "date \<Rightarrow> Record \<Rightarrow> bool" where
  "in_window today record =
     (case birthday record of
        None \<Rightarrow> False
      | Some b \<Rightarrow>
          0 \<le> spec_final_delta today (birthday_value b) \<and>
          spec_final_delta today (birthday_value b) \<le> 7)"

text \<open>
  No candidate of the year after 9999 is needed: the year of \<open>today\<close> is below 9999, or
  no birthday of the records has passed this year.
\<close>

definition no_overflow :: "date \<Rightarrow> Record list \<Rightarrow> bool" where
  "no_overflow today records =
     (year today < MAXYEAR \<or>
      (\<forall>r \<in> set records. \<forall>b. birthday r = Some b \<longrightarrow> \<not> passed today (birthday_value b)))"

text \<open>
  The three parts of a string that \<^verbatim>\<open>strptime\<close> accepts under \<^verbatim>\<open>%d.%m.%Y\<close>, as the sets of
  strings that the patterns \<^verbatim>\<open>3[0-1]|[1-2]\d|0[1-9]|[1-9]| [1-9]\<close>, \<^verbatim>\<open>1[0-2]|0[1-9]|[1-9]\<close>
  and \<^verbatim>\<open>\d\d\d\d\<close> denote.
\<close>

definition day_text :: "str \<Rightarrow> bool" where
  "day_text d =
     (case d of
        [a] \<Rightarrow> 49 \<le> a \<and> a \<le> 57
      | [a, b] \<Rightarrow>
          a = 51 \<and> 48 \<le> b \<and> b \<le> 49 \<or> 49 \<le> a \<and> a \<le> 50 \<and> is_decimal b \<or>
          a = 48 \<and> 49 \<le> b \<and> b \<le> 57 \<or> a = 32 \<and> 49 \<le> b \<and> b \<le> 57
      | _ \<Rightarrow> False)"

definition month_text :: "str \<Rightarrow> bool" where
  "month_text m =
     (case m of
        [a] \<Rightarrow> 49 \<le> a \<and> a \<le> 57
      | [a, b] \<Rightarrow> a = 49 \<and> 48 \<le> b \<and> b \<le> 50 \<or> a = 48 \<and> 49 \<le> b \<and> b \<le> 57
      | _ \<Rightarrow> False)"

definition year_text :: "str \<Rightarrow> bool" where
  "year_text y = (length y = 4 \<and> (\<forall>c \<in> set y. is_decimal c))"

text \<open>
  The ways of writing the day with the decimal digits \<open>d1 d2\<close>: with both digits, and,
  when the first is zero, with the second alone or with a space in place of the zero.
  The ways of writing the month with the digits \<open>m1 m2\<close>: with both digits, and, when
  the first is zero, with the second alone.
\<close>

definition day_texts :: "nat \<Rightarrow> nat \<Rightarrow> str list" where
  "day_texts d1 d2 =
     [48 + d1, 48 + d2] # (if d1 = 0 then [[48 + d2], [32, 48 + d2]] else [])"

definition month_texts :: "nat \<Rightarrow> nat \<Rightarrow> str list" where
  "month_texts m1 m2 = [48 + m1, 48 + m2] # (if m1 = 0 then [[48 + m2]] else [])"

section \<open>Evaluation of the library functions\<close>

lemmas date_eval =
  date_new_def replace_year_def days_in_month_def is_leap_def DAYS_IN_MONTH_def
  sub_days_def toordinal_def ymd2ord_def days_before_year_def days_before_month_def
  DAYS_BEFORE_MONTH_def MINYEAR_def MAXYEAR_def

lemma digit_value_ascii: "48 \<le> c \<Longrightarrow> c \<le> 57 \<Longrightarrow> digit_value c = Some (c - 48)"
  by (simp add: digit_value_def Nd_blocks_def)

lemma is_decimal_ascii: "48 \<le> c \<Longrightarrow> c \<le> 57 \<Longrightarrow> is_decimal c"
  by (simp add: is_decimal_def digit_value_ascii)

lemma digit_value_below_1632:
  "c < 1632 \<Longrightarrow> digit_value c = (if 48 \<le> c \<and> c \<le> 57 then Some (c - 48) else None)"
  by (auto simp add: digit_value_def Nd_blocks_def)

lemmas strptime_eval =
  Birthday_init_def strptime_dmY_def format_regex_matches_def group_d_def group_m_def
  group_Y_def literal_def py_int_def ascii_def is_decimal_def digit_value_below_1632

section \<open>Phone numbers\<close>

text \<open>
  Claim C2, as the code has it. \<^verbatim>\<open>Phone(s)\<close> succeeds, storing \<open>s\<close>, exactly when \<open>s\<close> has
  ten characters and each is a Unicode decimal digit; on every other string it raises
  \<^verbatim>\<open>ValueError("Phone number must be 10 digits.")\<close>. Below code point 1632 the decimal
  digits are the ASCII digits alone, so a string with an ASCII separator, a plus sign or
  white space is rejected, and every string of ten ASCII digits is accepted.
\<close>

theorem Phone_init_ten_decimal_digits:
  "Phone_init s =
     (if length s = 10 \<and> (\<forall>c \<in> set s. is_decimal c) then Inr \<lparr>phone_value = s\<rparr>
      else Inl (ValueError ''Phone number must be 10 digits.'')) \<and>
   (\<forall>c < 1632. is_decimal c \<longleftrightarrow> 48 \<le> c \<and> c \<le> 57)"
proof (rule conjI)
  show "Phone_init s =
     (if length s = 10 \<and> (\<forall>c \<in> set s. is_decimal c) then Inr \<lparr>phone_value = s\<rparr>
      else Inl (ValueError ''Phone number must be 10 digits.''))"
    by (simp add: Phone_init_def Phone_validate_def fullmatch_d10_def list_all_iff)
  show "\<forall>c < 1632. is_decimal c \<longleftrightarrow> 48 \<le> c \<and> c \<le> 57"
    by (simp add: is_decimal_def digit_value_below_1632)
qed

theorem Phone_init_ten_decimal_digits_witness:
  "Phone_init (ascii ''0501234567'') = Inr \<lparr>phone_value = ascii ''0501234567''\<rparr> \<and>
   Phone_init (ascii ''+380501234'') = Inl (ValueError ''Phone number must be 10 digits.'') \<and>
   Phone_init (ascii ''050 123 45'') = Inl (ValueError ''Phone number must be 10 digits.'') \<and>
   Phone_init (ascii ''05012345678'') = Inl (ValueError ''Phone number must be 10 digits.'')"
proof -
  note dec = Phone_init_ten_decimal_digits [THEN conjunct2]
  have a: "length (ascii ''0501234567'') = 10 \<and> (\<forall>c \<in> set (ascii ''0501234567''). is_decimal c)"
    by (simp add: ascii_def dec)
  have b: "\<not> (length (ascii ''+380501234'') = 10 \<and> (\<forall>c \<in> set (ascii ''+380501234''). is_decimal c))"
    by (simp add: ascii_def dec)
  have c: "\<not> (length (ascii ''050 123 45'') = 10 \<and> (\<forall>c \<in> set (ascii ''050 123 45''). is_decimal c))"
    by (simp add: ascii_def dec)
  have d: "\<not> (length (ascii ''05012345678'') = 10 \<and> (\<forall>c \<in> set (ascii ''05012345678''). is_decimal c))"
    by (simp add: ascii_def)
  from Phone_init_ten_decimal_digits [of "ascii ''0501234567''", THEN conjunct1] a
  have "Phone_init (ascii ''0501234567'') = Inr \<lparr>phone_value = ascii ''0501234567''\<rparr>"
    by simp
  moreover from Phone_init_ten_decimal_digits [of "ascii ''+380501234''", THEN conjunct1] b
  have "Phone_init (ascii ''+380501234'') = Inl (ValueError ''Phone number must be 10 digits.'')"
    by simp
  moreover from Phone_init_ten_decimal_digits [of "ascii ''050 123 45''", THEN conjunct1] c
  have "Phone_init (ascii ''050 123 45'') = Inl (ValueError ''Phone number must be 10 digits.'')"
    by simp
  moreover from Phone_init_ten_decimal_digits [of "ascii ''05012345678''", THEN conjunct1] d
  have "Phone_init (ascii ''05012345678'') = Inl (ValueError ''Phone number must be 10 digits.'')"
    by simp
  ultimately show ?thesis by blast
qed

text \<open>
  The claim as stated fails: ten ARABIC-INDIC digits (U+0660 to U+0669) are no ASCII
  digits, and \<^verbatim>\<open>\d{10}\<close> accepts them.
\<close>

theorem Phone_init_arabic_indic_counterexample:
  "Phone_init [1632, 1637, 1632, 1633, 1634, 1635, 1636, 1637, 1638, 1639] =
     Inr \<lparr>phone_value = [1632, 1637, 1632, 1633, 1634, 1635, 1636, 1637, 1638, 1639]\<rparr>"
  by (simp add: Phone_init_def Phone_validate_def fullmatch_d10_def is_decimal_def
      digit_value_def Nd_blocks_def)

section \<open>Birthdays\<close>

subsection \<open>Strings in the form DD.MM.YYYY\<close>

lemma group_d_two_digits:
  assumes "a < 10" "b < 10" "1 \<le> 10 * a + b" "10 * a + b \<le> 31"
  shows "group_d ((48 + a) # (48 + b) # r) =
    ([48 + a, 48 + b], r) # (if 1 \<le> a then [([48 + a], (48 + b) # r)] else [])"
proof -
  have dec: "is_decimal (48 + b)" using assms(2) by (simp add: is_decimal_ascii)
  from assms have "a = 0 \<and> 1 \<le> b \<or> a = 1 \<or> a = 2 \<or> a = 3 \<and> b \<le> 1" by arith
  then show ?thesis using dec assms(2) by (auto simp: group_d_def)
qed

lemma group_m_two_digits:
  assumes "a < 10" "b < 10" "1 \<le> 10 * a + b" "10 * a + b \<le> 12"
  shows "group_m ((48 + a) # (48 + b) # r) =
    ([48 + a, 48 + b], r) # (if 1 \<le> a then [([48 + a], (48 + b) # r)] else [])"
proof -
  from assms have "a = 0 \<and> 1 \<le> b \<or> a = 1 \<and> b \<le> 2" by arith
  then show ?thesis using assms(2) by (auto simp: group_m_def)
qed

lemma group_Y_four_digits:
  assumes "a < 10" "b < 10" "c < 10" "d < 10"
  shows "group_Y [48 + a, 48 + b, 48 + c, 48 + d] = [([48 + a, 48 + b, 48 + c, 48 + d], [])]"
  using assms by (simp add: group_Y_def is_decimal_ascii)

lemma literal_digit: "b < 10 \<Longrightarrow> literal 46 ((48 + b) # r) = []"
  by (simp add: literal_def)

lemma literal_dot: "literal 46 (46 # r) = [r]"
  by (simp add: literal_def)

lemma format_regex_matches_canonical:
  assumes "d1 < 10" "d2 < 10" "m1 < 10" "m2 < 10" "y1 < 10" "y2 < 10" "y3 < 10" "y4 < 10"
    and "1 \<le> 10 * d1 + d2" "10 * d1 + d2 \<le> 31" "1 \<le> 10 * m1 + m2" "10 * m1 + m2 \<le> 12"
  shows "format_regex_matches (DDMMYYYY d1 d2 m1 m2 y1 y2 y3 y4) =
    [([48 + d1, 48 + d2], [48 + m1, 48 + m2], [48 + y1, 48 + y2, 48 + y3, 48 + y4], [])]"
  using assms
  by (simp add: format_regex_matches_def DDMMYYYY_def group_d_two_digits group_m_two_digits
      group_Y_four_digits literal_digit literal_dot)

lemma py_int_two_digits:
  "a < 10 \<Longrightarrow> b < 10 \<Longrightarrow> py_int [48 + a, 48 + b] = Some (int (10 * a + b))"
  by (simp add: py_int_def digit_value_ascii)

lemma py_int_four_digits:
  "a < 10 \<Longrightarrow> b < 10 \<Longrightarrow> c < 10 \<Longrightarrow> d < 10 \<Longrightarrow>
   py_int [48 + a, 48 + b, 48 + c, 48 + d] = Some (int (1000 * a + 100 * b + 10 * c + d))"
  by (simp add: py_int_def digit_value_ascii)

lemma days_in_month_le_31: "1 \<le> m \<Longrightarrow> m \<le> 12 \<Longrightarrow> days_in_month y m \<le> 31"
proof -
  assume "1 \<le> m" "m \<le> 12"
  then have "m = 1 \<or> m = 2 \<or> m = 3 \<or> m = 4 \<or> m = 5 \<or> m = 6 \<or> m = 7 \<or> m = 8 \<or> m = 9 \<or>
    m = 10 \<or> m = 11 \<or> m = 12" by arith
  then show ?thesis by (auto simp: days_in_month_def DAYS_IN_MONTH_def)
qed

lemma date_new_valid:
  "valid_date \<lparr>year = y, month = m, day = d\<rparr> \<Longrightarrow> date_new y m d = Inr \<lparr>year = y, month = m, day = d\<rparr>"
  by (simp add: valid_date_def date_new_def)

lemma date_new_Inr: "date_new y m d = Inr dt \<Longrightarrow> valid_date dt \<and> year dt = y \<and> month dt = m \<and> day dt = d"
  by (auto simp: valid_date_def date_new_def split: if_splits)

lemma Birthday_init_canonical:
  assumes digits: "d1 < 10" "d2 < 10" "m1 < 10" "m2 < 10" "y1 < 10" "y2 < 10" "y3 < 10" "y4 < 10"
    and valid: "valid_date (named_date d1 d2 m1 m2 y1 y2 y3 y4)"
  shows "Birthday_init (DDMMYYYY d1 d2 m1 m2 y1 y2 y3 y4) =
    Inr \<lparr>birthday_value = named_date d1 d2 m1 m2 y1 y2 y3 y4\<rparr>"
proof -
  from valid have m: "1 \<le> 10 * m1 + m2" "10 * m1 + m2 \<le> 12"
    by (simp_all add: valid_date_def named_date_def)
  from valid have d: "1 \<le> 10 * d1 + d2"
    and "int (10 * d1 + d2) \<le> days_in_month (int (1000 * y1 + 100 * y2 + 10 * y3 + y4)) (int (10 * m1 + m2))"
    by (simp_all add: valid_date_def named_date_def)
  moreover from m have "days_in_month (int (1000 * y1 + 100 * y2 + 10 * y3 + y4)) (int (10 * m1 + m2)) \<le> 31"
    by (intro days_in_month_le_31) simp_all
  ultimately have d': "10 * d1 + d2 \<le> 31" by linarith
  from valid have new: "date_new (int (1000 * y1 + 100 * y2 + 10 * y3 + y4)) (int (10 * m1 + m2))
      (int (10 * d1 + d2)) = Inr (named_date d1 d2 m1 m2 y1 y2 y3 y4)"
    unfolding named_date_def by (rule date_new_valid)
  from digits d d' m have "format_regex_matches (DDMMYYYY d1 d2 m1 m2 y1 y2 y3 y4) =
    [([48 + d1, 48 + d2], [48 + m1, 48 + m2], [48 + y1, 48 + y2, 48 + y3, 48 + y4], [])]"
    by (intro format_regex_matches_canonical)
  with digits new show ?thesis
    by (simp add: Birthday_init_def strptime_dmY_def py_int_two_digits py_int_four_digits)
qed

subsection \<open>Formatting the stored date\<close>

lemma two_digits_nat: "a < 10 \<Longrightarrow> b < 10 \<Longrightarrow> two_digits (10 * int a + int b) = [48 + a, 48 + b]"
  by (simp add: two_digits_def)

lemma decimal_places:
  fixes a b c d :: nat
  assumes "a < 10" "b < 10" "c < 10" "d < 10"
  defines "n \<equiv> 1000 * a + 100 * b + 10 * c + d"
  shows "n div 1000 mod 10 = a \<and> n div 100 mod 10 = b \<and> n div 10 mod 10 = c \<and> n mod 10 = d"
proof -
  define q1 where "q1 = 100 * a + 10 * b + c"
  define q2 where "q2 = 10 * a + b"
  have n: "n = 10 * q1 + d" by (simp add: n_def q1_def)
  have q1: "q1 = 10 * q2 + c" by (simp add: q1_def q2_def)
  have ones: "n mod 10 = d" and "n div 10 = q1"
    using assms(4) by (simp_all add: n)
  moreover have tens: "q1 mod 10 = c" and "q1 div 10 = q2"
    using assms(3) by (simp_all add: q1)
  moreover have hundreds: "q2 mod 10 = b" and "q2 div 10 = a"
    using assms(2) by (simp_all add: q2_def)
  moreover have "n div 100 = n div 10 div 10"
    using div_mult2_eq [of n 10 10] by simp
  moreover have "n div 1000 = n div 10 div 10 div 10"
    using div_mult2_eq [of n 10 100] div_mult2_eq [of "n div 10" 10 10] by simp
  ultimately show ?thesis using assms(1) by simp
qed

lemma nat_int_div_mod: "nat (int n div int k mod int j) = n div k mod j"
  by (simp only: zdiv_int [symmetric] zmod_int [symmetric] nat_int)

lemma nat_int_mod: "nat (int n mod int j) = n mod j"
  by (simp only: zmod_int [symmetric] nat_int)

lemma four_digits_int: "four_digits (int n) =
  [48 + n div 1000 mod 10, 48 + n div 100 mod 10, 48 + n div 10 mod 10, 48 + n mod 10]"
  using nat_int_div_mod [of n 1000 10] nat_int_div_mod [of n 100 10] nat_int_div_mod [of n 10 10]
    nat_int_mod [of n 10]
  by (simp only: four_digits_def of_nat_numeral)

lemma four_digits_nat:
  assumes "a < 10" "b < 10" "c < 10" "d < 10"
  shows "four_digits (1000 * int a + 100 * int b + 10 * int c + int d) =
     [48 + a, 48 + b, 48 + c, 48 + d]"
proof -
  have "1000 * int a + 100 * int b + 10 * int c + int d = int (1000 * a + 100 * b + 10 * c + d)"
    by simp
  then show ?thesis
    using decimal_places [OF assms] by (simp only: four_digits_int)
qed

lemma strftime_canonical:
  assumes "d1 < 10" "d2 < 10" "m1 < 10" "m2 < 10" "y1 < 10" "y2 < 10" "y3 < 10" "y4 < 10"
    and "pad_year \<or> 1000 \<le> year (named_date d1 d2 m1 m2 y1 y2 y3 y4)"
  shows "strftime_dmY pad_year (named_date d1 d2 m1 m2 y1 y2 y3 y4) =
    DDMMYYYY d1 d2 m1 m2 y1 y2 y3 y4"
proof -
  from assms(9) have "year_digits pad_year (int (1000 * y1 + 100 * y2 + 10 * y3 + y4)) =
    four_digits (int (1000 * y1 + 100 * y2 + 10 * y3 + y4))"
    by (simp add: year_digits_def named_date_def)
  with assms(1-8) show ?thesis
    by (simp add: strftime_dmY_def named_date_def DDMMYYYY_def two_digits_nat four_digits_nat)
qed

subsection \<open>What an accepted string looks like\<close>

lemma day_text_cases:
  "day_text d \<longleftrightarrow>
     (\<exists>a. d = [a] \<and> 49 \<le> a \<and> a \<le> 57) \<or>
     (\<exists>a b. d = [a, b] \<and>
        (a = 51 \<and> 48 \<le> b \<and> b \<le> 49 \<or> 49 \<le> a \<and> a \<le> 50 \<and> is_decimal b \<or>
         a = 48 \<and> 49 \<le> b \<and> b \<le> 57 \<or> a = 32 \<and> 49 \<le> b \<and> b \<le> 57))"
  by (simp add: day_text_def split: list.split)

lemma month_text_cases:
  "month_text m \<longleftrightarrow>
     (\<exists>a. m = [a] \<and> 49 \<le> a \<and> a \<le> 57) \<or>
     (\<exists>a b. m = [a, b] \<and>
        (a = 49 \<and> 48 \<le> b \<and> b \<le> 50 \<or> a = 48 \<and> 49 \<le> b \<and> b \<le> 57))"
  by (simp add: month_text_def split: list.split)

lemma year_text_cases:
  "year_text y \<longleftrightarrow>
     (\<exists>a b c d. y = [a, b, c, d] \<and> is_decimal a \<and> is_decimal b \<and> is_decimal c \<and> is_decimal d)"
proof
  assume "year_text y"
  then have len: "length y = 4" and dec: "\<forall>c \<in> set y. is_decimal c"
    by (simp_all add: year_text_def)
  from len obtain a b c d where "y = [a, b, c, d]"
    by (auto simp: length_Suc_conv numeral_eq_Suc)
  with dec show "\<exists>a b c d. y = [a, b, c, d] \<and> is_decimal a \<and> is_decimal b \<and> is_decimal c \<and> is_decimal d"
    by simp
next
  assume "\<exists>a b c d. y = [a, b, c, d] \<and> is_decimal a \<and> is_decimal b \<and> is_decimal c \<and> is_decimal d"
  then show "year_text y" by (auto simp: year_text_def)
qed

lemma full_stop_not_decimal: "\<not> is_decimal 46"
  by (simp add: is_decimal_def digit_value_below_1632)

lemma day_text_no_full_stop: "day_text d \<Longrightarrow> 46 \<notin> set d"
  using full_stop_not_decimal by (auto simp: day_text_cases)

lemma month_text_no_full_stop: "month_text m \<Longrightarrow> 46 \<notin> set m"
  by (auto simp: month_text_cases)

lemma group_d_day_text:
  assumes "(d, r) \<in> set (group_d s)"
  shows "s = d @ r \<and> day_text d"
proof (cases s)
  case Nil
  with assms show ?thesis by (simp add: group_d_def)
next
  case (Cons a t)
  show ?thesis
  proof (cases t)
    case Nil
    with Cons assms show ?thesis
      by (auto simp: group_d_def day_text_cases split: if_splits)
  next
    case (Cons b u)
    with \<open>s = a # t\<close> assms show ?thesis
      by (auto simp: group_d_def day_text_cases split: if_splits)
  qed
qed

lemma day_text_group_d:
  assumes "day_text d"
  shows "(d, r) \<in> set (group_d (d @ r))"
proof -
  from assms consider a where "d = [a]" "49 \<le> a" "a \<le> 57"
    | a b where "d = [a, b]"
      "a = 51 \<and> 48 \<le> b \<and> b \<le> 49 \<or> 49 \<le> a \<and> a \<le> 50 \<and> is_decimal b \<or>
         a = 48 \<and> 49 \<le> b \<and> b \<le> 57 \<or> a = 32 \<and> 49 \<le> b \<and> b \<le> 57"
    by (auto simp: day_text_cases)
  then show ?thesis
  proof cases
    case 1
    then show ?thesis by (cases r) (simp_all add: group_d_def)
  next
    case 2
    then show ?thesis by (auto simp: group_d_def)
  qed
qed

lemma group_m_month_text:
  assumes "(m, r) \<in> set (group_m s)"
  shows "s = m @ r \<and> month_text m"
proof (cases s)
  case Nil
  with assms show ?thesis by (simp add: group_m_def)
next
  case (Cons a t)
  show ?thesis
  proof (cases t)
    case Nil
    with Cons assms show ?thesis
      by (auto simp: group_m_def month_text_cases split: if_splits)
  next
    case (Cons b u)
    with \<open>s = a # t\<close> assms show ?thesis
      by (auto simp: group_m_def month_text_cases split: if_splits)
  qed
qed

lemma month_text_group_m:
  assumes "month_text m"
  shows "(m, r) \<in> set (group_m (m @ r))"
proof -
  from assms consider a where "m = [a]" "49 \<le> a" "a \<le> 57"
    | a b where "m = [a, b]"
      "a = 49 \<and> 48 \<le> b \<and> b \<le> 50 \<or> a = 48 \<and> 49 \<le> b \<and> b \<le> 57"
    by (auto simp: month_text_cases)
  then show ?thesis
  proof cases
    case 1
    then show ?thesis by (cases r) (simp_all add: group_m_def)
  next
    case 2
    then show ?thesis by (auto simp: group_m_def)
  qed
qed

lemma group_Y_year_text:
  assumes "(y, r) \<in> set (group_Y s)"
  shows "s = y @ r \<and> year_text y"
proof -
  have "\<exists>a b c d u. s = a # b # c # d # u"
  proof (rule ccontr)
    assume "\<not> (\<exists>a b c d u. s = a # b # c # d # u)"
    then have "group_Y s = []"
      by (simp add: group_Y_def split: list.splits)
    with assms show False by simp
  qed
  then obtain a b c d u where "s = a # b # c # d # u" by blast
  with assms show ?thesis by (simp add: group_Y_def year_text_def split: if_splits)
qed

lemma year_text_group_Y: "year_text y \<Longrightarrow> (y, r) \<in> set (group_Y (y @ r))"
  by (auto simp: year_text_cases group_Y_def)

lemma literal_iff: "r \<in> set (literal c s) \<longleftrightarrow> s = c # r"
  by (auto simp: literal_def split: list.splits if_splits)

lemma format_regex_matches_iff:
  "(d, m, y, rest) \<in> set (format_regex_matches s) \<longleftrightarrow>
     s = d @ [46] @ m @ [46] @ y @ rest \<and> day_text d \<and> month_text m \<and> year_text y"
proof
  assume "(d, m, y, rest) \<in> set (format_regex_matches s)"
  then obtain s1 s2 s3 s4 where
    "(d, s1) \<in> set (group_d s)" "s2 \<in> set (literal 46 s1)" "(m, s3) \<in> set (group_m s2)"
    "s4 \<in> set (literal 46 s3)" "(y, rest) \<in> set (group_Y s4)"
    by (auto simp: format_regex_matches_def)
  then show "s = d @ [46] @ m @ [46] @ y @ rest \<and> day_text d \<and> month_text m \<and> year_text y"
    using group_d_day_text [of d s1 s] group_m_month_text [of m s3 s2]
      group_Y_year_text [of y rest s4]
    by (simp add: literal_iff)
next
  assume a: "s = d @ [46] @ m @ [46] @ y @ rest \<and> day_text d \<and> month_text m \<and> year_text y"
  let ?s4 = "y @ rest" and ?s3 = "46 # y @ rest"
  let ?s2 = "m @ 46 # y @ rest" and ?s1 = "46 # m @ 46 # y @ rest"
  from a have "(d, ?s1) \<in> set (group_d s)"
    using day_text_group_d [of d ?s1] by simp
  moreover have "?s2 \<in> set (literal 46 ?s1)" by (simp add: literal_iff)
  moreover from a have "(m, ?s3) \<in> set (group_m ?s2)"
    using month_text_group_m [of m ?s3] by simp
  moreover have "?s4 \<in> set (literal 46 ?s3)" by (simp add: literal_iff)
  moreover from a have "(y, rest) \<in> set (group_Y ?s4)"
    using year_text_group_Y [of y rest] by simp
  ultimately show "(d, m, y, rest) \<in> set (format_regex_matches s)"
    unfolding format_regex_matches_def by (fastforce simp: image_iff)
qed

lemma split_at_first:
  "c \<notin> set xs \<Longrightarrow> c \<notin> set ys \<Longrightarrow> xs @ c # u = ys @ c # v \<Longrightarrow> xs = ys \<and> u = v"
proof (induction xs arbitrary: ys)
  case Nil
  then show ?case by (cases ys) auto
next
  case (Cons x xs)
  show ?case
  proof (cases ys)
    case Nil
    with Cons.prems show ?thesis by auto
  next
    case (Cons y ys')
    with Cons.prems have "x = y" "c \<notin> set xs" "c \<notin> set ys'" "xs @ c # u = ys' @ c # v"
      by auto
    with Cons.IH [of ys'] Cons show ?thesis by simp
  qed
qed

lemma split_at_full_stop:
  fixes xs ys u v :: str
  shows "46 \<notin> set xs \<Longrightarrow> 46 \<notin> set ys \<Longrightarrow> xs @ [46] @ u = ys @ [46] @ v \<Longrightarrow>
    xs = ys \<and> u = v"
  using split_at_first [of 46 xs ys u v] by simp

lemma decomposition_unique:
  assumes "d @ [46] @ m @ [46] @ y @ rest = d' @ [46] @ m' @ [46] @ y' @ rest'"
    and "day_text d" "month_text m" "year_text y"
    and "day_text d'" "month_text m'" "year_text y'"
  shows "d = d' \<and> m = m' \<and> y = y' \<and> rest = rest'"
proof -
  from assms(2,5) have "46 \<notin> set d" "46 \<notin> set d'"
    by (simp_all add: day_text_no_full_stop)
  from this assms(1) have d: "d = d' \<and> m @ [46] @ y @ rest = m' @ [46] @ y' @ rest'"
    by (rule split_at_full_stop)
  from assms(3,6) have "46 \<notin> set m" "46 \<notin> set m'"
    by (simp_all add: month_text_no_full_stop)
  from this d [THEN conjunct2] have m: "m = m' \<and> y @ rest = y' @ rest'"
    by (rule split_at_full_stop)
  from assms(4,7) have "length y = length y'" by (simp add: year_text_def)
  with m have "y = y' \<and> rest = rest'" by simp
  with d m show ?thesis by simp
qed

lemma strptime_dmY_iff:
  "strptime_dmY s = Inr dt \<longleftrightarrow>
     (\<exists>d m y. s = d @ [46] @ m @ [46] @ y \<and> day_text d \<and> month_text m \<and> year_text y \<and>
        py_int d = Some (day dt) \<and> py_int m = Some (month dt) \<and> py_int y = Some (year dt) \<and>
        valid_date dt)"
proof
  assume parsed: "strptime_dmY s = Inr dt"
  show "\<exists>d m y. s = d @ [46] @ m @ [46] @ y \<and> day_text d \<and> month_text m \<and> year_text y \<and>
        py_int d = Some (day dt) \<and> py_int m = Some (month dt) \<and> py_int y = Some (year dt) \<and>
        valid_date dt"
  proof (cases "format_regex_matches s")
    case Nil
    with parsed show ?thesis by (simp add: strptime_dmY_def)
  next
    case (Cons x xs)
    obtain d m y rest where x: "x = (d, m, y, rest)" by (cases x) auto
    with Cons have "(d, m, y, rest) \<in> set (format_regex_matches s)" by simp
    then have shape: "s = d @ [46] @ m @ [46] @ y @ rest \<and> day_text d \<and> month_text m \<and>
      year_text y"
      by (simp only: format_regex_matches_iff)
    from parsed Cons x have rest: "rest = []"
      by (simp add: strptime_dmY_def split: if_splits)
    from parsed Cons x rest obtain yv mv dv where
      ints: "py_int y = Some yv" "py_int m = Some mv" "py_int d = Some dv"
      and new: "date_new yv mv dv = Inr dt"
      by (auto simp: strptime_dmY_def split: option.splits)
    from new have "valid_date dt \<and> year dt = yv \<and> month dt = mv \<and> day dt = dv"
      by (rule date_new_Inr)
    with shape rest ints show ?thesis by auto
  qed
next
  assume "\<exists>d m y. s = d @ [46] @ m @ [46] @ y \<and> day_text d \<and> month_text m \<and> year_text y \<and>
        py_int d = Some (day dt) \<and> py_int m = Some (month dt) \<and> py_int y = Some (year dt) \<and>
        valid_date dt"
  then obtain d m y where s: "s = d @ [46] @ m @ [46] @ y @ []"
    and texts: "day_text d" "month_text m" "year_text y"
    and ints: "py_int d = Some (day dt)" "py_int m = Some (month dt)" "py_int y = Some (year dt)"
    and valid: "valid_date dt"
    by auto
  from s texts have mem: "(d, m, y, []) \<in> set (format_regex_matches s)"
    by (simp only: format_regex_matches_iff simp_thms)
  then obtain x xs where list: "format_regex_matches s = x # xs"
    by (cases "format_regex_matches s") auto
  obtain d' m' y' rest' where x: "x = (d', m', y', rest')" by (cases x) auto
  with list have "(d', m', y', rest') \<in> set (format_regex_matches s)" by simp
  then have "s = d' @ [46] @ m' @ [46] @ y' @ rest' \<and> day_text d' \<and> month_text m' \<and>
      year_text y'"
    by (simp only: format_regex_matches_iff)
  with s texts have "d = d' \<and> m = m' \<and> y = y' \<and> [] = rest'"
    by (intro decomposition_unique) simp_all
  with x have head: "x = (d, m, y, [])" by simp
  from valid have "date_new (year dt) (month dt) (day dt) = Inr dt"
    by (simp add: date_new_def valid_date_def)
  with list head ints show "strptime_dmY s = Inr dt"
    by (simp add: strptime_dmY_def)
qed

lemma Birthday_init_iff:
  "Birthday_init s = Inr b \<longleftrightarrow>
     (\<exists>d m y. s = d @ [46] @ m @ [46] @ y \<and> day_text d \<and> month_text m \<and> year_text y \<and>
        py_int d = Some (day (birthday_value b)) \<and> py_int m = Some (month (birthday_value b)) \<and>
        py_int y = Some (year (birthday_value b)) \<and> valid_date (birthday_value b))"
proof -
  have "Birthday_init s = Inr b \<longleftrightarrow> strptime_dmY s = Inr (birthday_value b)"
    by (auto simp: Birthday_init_def split: sum.splits error.splits)
  then show ?thesis by (simp only: strptime_dmY_iff)
qed

lemma day_texts_read:
  assumes "d1 < 10" "d2 < 10" "1 \<le> 10 * d1 + d2" "10 * d1 + d2 \<le> 31"
    and "dt \<in> set (day_texts d1 d2)"
  shows "day_text dt \<and> py_int dt = Some (int (10 * d1 + d2))"
proof -
  have dec: "is_decimal (48 + d2)" using assms(2) by (simp add: is_decimal_ascii)
  from assms(1-4) have range: "d1 = 0 \<and> 1 \<le> d2 \<or> d1 = 1 \<or> d1 = 2 \<or> d1 = 3 \<and> d2 \<le> 1"
    by arith
  from assms(5) consider "dt = [48 + d1, 48 + d2]" | "d1 = 0" "dt = [48 + d2]"
    | "d1 = 0" "dt = [32, 48 + d2]"
    by (auto simp: day_texts_def split: if_splits)
  then show ?thesis
  proof cases
    case 1
    moreover from range dec assms(2) have "day_text [48 + d1, 48 + d2]"
      by (auto simp: day_text_cases)
    ultimately show ?thesis using assms(1,2) by (simp add: py_int_two_digits)
  next
    case 2
    with range assms(2) show ?thesis
      by (simp add: day_text_cases py_int_def digit_value_ascii)
  next
    case 3
    with range assms(2) show ?thesis
      by (simp add: day_text_cases py_int_def digit_value_ascii)
  qed
qed

lemma month_texts_read:
  assumes "m1 < 10" "m2 < 10" "1 \<le> 10 * m1 + m2" "10 * m1 + m2 \<le> 12"
    and "mt \<in> set (month_texts m1 m2)"
  shows "month_text mt \<and> py_int mt = Some (int (10 * m1 + m2))"
proof -
  from assms(1-4) have range: "m1 = 0 \<and> 1 \<le> m2 \<or> m1 = 1 \<and> m2 \<le> 2"
    by arith
  from assms(5) consider "mt = [48 + m1, 48 + m2]" | "m1 = 0" "mt = [48 + m2]"
    by (auto simp: month_texts_def split: if_splits)
  then show ?thesis
  proof cases
    case 1
    moreover from range assms(2) have "month_text [48 + m1, 48 + m2]"
      by (auto simp: month_text_cases)
    ultimately show ?thesis using assms(1,2) by (simp add: py_int_two_digits)
  next
    case 2
    with range assms(2) show ?thesis
      by (simp add: month_text_cases py_int_def digit_value_ascii)
  qed
qed

lemma Birthday_init_written:
  assumes digits: "d1 < 10" "d2 < 10" "m1 < 10" "m2 < 10" "y1 < 10" "y2 < 10" "y3 < 10" "y4 < 10"
    and valid: "valid_date (named_date d1 d2 m1 m2 y1 y2 y3 y4)"
    and dt: "dt \<in> set (day_texts d1 d2)" and mt: "mt \<in> set (month_texts m1 m2)"
  shows "Birthday_init (dt @ [46] @ mt @ [46] @ [48 + y1, 48 + y2, 48 + y3, 48 + y4]) =
    Inr \<lparr>birthday_value = named_date d1 d2 m1 m2 y1 y2 y3 y4\<rparr>"
proof -
  let ?nd = "named_date d1 d2 m1 m2 y1 y2 y3 y4"
  let ?y = "[48 + y1, 48 + y2, 48 + y3, 48 + y4]"
  from valid have m: "1 \<le> 10 * m1 + m2" "10 * m1 + m2 \<le> 12"
    by (simp_all add: valid_date_def named_date_def)
  from valid have d: "1 \<le> 10 * d1 + d2"
    and "int (10 * d1 + d2) \<le> days_in_month (year ?nd) (int (10 * m1 + m2))"
    by (simp_all add: valid_date_def named_date_def)
  moreover from m have "days_in_month (year ?nd) (int (10 * m1 + m2)) \<le> 31"
    by (intro days_in_month_le_31) simp_all
  ultimately have d': "10 * d1 + d2 \<le> 31" by linarith
  from digits(1,2) d d' dt have day: "day_text dt \<and> py_int dt = Some (int (10 * d1 + d2))"
    by (rule day_texts_read)
  from digits(3,4) m mt have month: "month_text mt \<and> py_int mt = Some (int (10 * m1 + m2))"
    by (rule month_texts_read)
  from digits(5-8) have year: "year_text ?y \<and>
    py_int ?y = Some (int (1000 * y1 + 100 * y2 + 10 * y3 + y4))"
    by (simp add: year_text_def is_decimal_ascii py_int_four_digits)
  have "\<exists>d m y. dt @ [46] @ mt @ [46] @ ?y = d @ [46] @ m @ [46] @ y \<and>
        day_text d \<and> month_text m \<and> year_text y \<and>
        py_int d = Some (day ?nd) \<and> py_int m = Some (month ?nd) \<and>
        py_int y = Some (year ?nd) \<and> valid_date ?nd"
  proof (intro exI conjI)
    show "dt @ [46] @ mt @ [46] @ ?y = dt @ [46] @ mt @ [46] @ ?y" ..
    from day show "day_text dt" "py_int dt = Some (day ?nd)" by (simp_all add: named_date_def)
    from month show "month_text mt" "py_int mt = Some (month ?nd)"
      by (simp_all add: named_date_def)
    from year show "year_text ?y" "py_int ?y = Some (year ?nd)" by (simp_all add: named_date_def)
    from valid show "valid_date ?nd" .
  qed
  then show ?thesis
    using Birthday_init_iff [of "dt @ [46] @ mt @ [46] @ ?y" "\<lparr>birthday_value = ?nd\<rparr>"]
    by simp
qed

lemma Birthday_init_31_02:
  "Birthday_init (ascii ''31.02.2020'') = Inl (ValueError ''Invalid date format. Use DD.MM.YYYY'')"
  by (simp add: strptime_eval date_eval)

lemma Birthday_init_leap_day:
  "Birthday_init (ascii ''29.02.2000'') =
      Inr \<lparr>birthday_value = \<lparr>year = 2000, month = 2, day = 29\<rparr>\<rparr>"
  by (simp add: strptime_eval date_eval)

text \<open>
  Claim C3, as the code has it. \<^verbatim>\<open>Birthday(s)\<close> succeeds exactly when \<open>s\<close> is a day text,
  a full stop, a month text, a full stop and a year text that read as the day, month
  and year of a date of the calendar (years 1 to 9999), and it stores that date; on
  every other string, \<^verbatim>\<open>31.02.2020\<close> among them, it raises
  \<^verbatim>\<open>ValueError("Invalid date format. Use DD.MM.YYYY")\<close>. So every string of two ASCII
  digits, a full stop, two ASCII digits, a full stop and four ASCII digits that names
  a date of the calendar is accepted, and formatting the stored date with \<^verbatim>\<open>%d.%m.%Y\<close>
  gives the string back (for a year below 1000 only where the platform pads \<^verbatim>\<open>%Y\<close> with
  zeros). The same date is accepted as well when the day or the month is written
  without its leading zero, or the day with a space in its place.
\<close>

theorem Birthday_init_round_trip:
  "(d1 < 10 \<and> d2 < 10 \<and> m1 < 10 \<and> m2 < 10 \<and> y1 < 10 \<and> y2 < 10 \<and> y3 < 10 \<and> y4 < 10 \<and>
    valid_date (named_date d1 d2 m1 m2 y1 y2 y3 y4) \<longrightarrow>
      Birthday_init (DDMMYYYY d1 d2 m1 m2 y1 y2 y3 y4) =
        Inr \<lparr>birthday_value = named_date d1 d2 m1 m2 y1 y2 y3 y4\<rparr> \<and>
      (pad_year \<or> 1000 \<le> year (named_date d1 d2 m1 m2 y1 y2 y3 y4) \<longrightarrow>
         strftime_dmY pad_year (named_date d1 d2 m1 m2 y1 y2 y3 y4) =
           DDMMYYYY d1 d2 m1 m2 y1 y2 y3 y4)) \<and>
   (d1 < 10 \<and> d2 < 10 \<and> m1 < 10 \<and> m2 < 10 \<and> y1 < 10 \<and> y2 < 10 \<and> y3 < 10 \<and> y4 < 10 \<and>
    valid_date (named_date d1 d2 m1 m2 y1 y2 y3 y4) \<and>
    dt \<in> set (day_texts d1 d2) \<and> mt \<in> set (month_texts m1 m2) \<longrightarrow>
      Birthday_init (dt @ [46] @ mt @ [46] @ [48 + y1, 48 + y2, 48 + y3, 48 + y4]) =
        Inr \<lparr>birthday_value = named_date d1 d2 m1 m2 y1 y2 y3 y4\<rparr>) \<and>
   (Birthday_init s = Inr b \<longleftrightarrow>
      (\<exists>d m y. s = d @ [46] @ m @ [46] @ y \<and> day_text d \<and> month_text m \<and> year_text y \<and>
         py_int d = Some (day (birthday_value b)) \<and>
         py_int m = Some (month (birthday_value b)) \<and>
         py_int y = Some (year (birthday_value b)) \<and> valid_date (birthday_value b))) \<and>
   (Birthday_init s = Inl e \<longrightarrow> e = ValueError ''Invalid date format. Use DD.MM.YYYY'') \<and>
   Birthday_init (ascii ''31.02.2020'') = Inl (ValueError ''Invalid date format. Use DD.MM.YYYY'') \<and>
   Birthday_init (ascii ''01. 1.2020'') = Inl (ValueError ''Invalid date format. Use DD.MM.YYYY'') \<and>
   Birthday_init (ascii ''01.01.2020 '') = Inl (ValueError ''Invalid date format. Use DD.MM.YYYY'') \<and>
   Birthday_init (ascii ''01.01.20'') = Inl (ValueError ''Invalid date format. Use DD.MM.YYYY'')"
proof (intro conjI impI)
  assume canonical: "d1 < 10 \<and> d2 < 10 \<and> m1 < 10 \<and> m2 < 10 \<and> y1 < 10 \<and> y2 < 10 \<and> y3 < 10 \<and>
    y4 < 10 \<and> valid_date (named_date d1 d2 m1 m2 y1 y2 y3 y4)"
  then show "Birthday_init (DDMMYYYY d1 d2 m1 m2 y1 y2 y3 y4) =
        Inr \<lparr>birthday_value = named_date d1 d2 m1 m2 y1 y2 y3 y4\<rparr>"
    by (intro Birthday_init_canonical) simp_all
  assume "pad_year \<or> 1000 \<le> year (named_date d1 d2 m1 m2 y1 y2 y3 y4)"
  with canonical show "strftime_dmY pad_year (named_date d1 d2 m1 m2 y1 y2 y3 y4) =
           DDMMYYYY d1 d2 m1 m2 y1 y2 y3 y4"
    by (intro strftime_canonical) simp_all
next
  assume "d1 < 10 \<and> d2 < 10 \<and> m1 < 10 \<and> m2 < 10 \<and> y1 < 10 \<and> y2 < 10 \<and> y3 < 10 \<and> y4 < 10 \<and>
    valid_date (named_date d1 d2 m1 m2 y1 y2 y3 y4) \<and>
    dt \<in> set (day_texts d1 d2) \<and> mt \<in> set (month_texts m1 m2)"
  then show "Birthday_init (dt @ [46] @ mt @ [46] @ [48 + y1, 48 + y2, 48 + y3, 48 + y4]) =
        Inr \<lparr>birthday_value = named_date d1 d2 m1 m2 y1 y2 y3 y4\<rparr>"
    by (intro Birthday_init_written) simp_all
next
  show "Birthday_init s = Inr b \<longleftrightarrow>
      (\<exists>d m y. s = d @ [46] @ m @ [46] @ y \<and> day_text d \<and> month_text m \<and> year_text y \<and>
         py_int d = Some (day (birthday_value b)) \<and>
         py_int m = Some (month (birthday_value b)) \<and>
         py_int y = Some (year (birthday_value b)) \<and> valid_date (birthday_value b))"
    by (rule Birthday_init_iff)
next
  assume "Birthday_init s = Inl e"
  then show "e = ValueError ''Invalid date format. Use DD.MM.YYYY''"
    by (auto simp: Birthday_init_def split: sum.splits error.splits)
next
  show "Birthday_init (ascii ''31.02.2020'') = Inl (ValueError ''Invalid date format. Use DD.MM.YYYY'')"
    by (simp add: strptime_eval date_eval)
  show "Birthday_init (ascii ''01. 1.2020'') = Inl (ValueError ''Invalid date format. Use DD.MM.YYYY'')"
    by (simp add: strptime_eval date_eval)
  show "Birthday_init (ascii ''01.01.2020 '') = Inl (ValueError ''Invalid date format. Use DD.MM.YYYY'')"
    by (simp add: strptime_eval date_eval)
  show "Birthday_init (ascii ''01.01.20'') = Inl (ValueError ''Invalid date format. Use DD.MM.YYYY'')"
    by (simp add: strptime_eval date_eval)
qed

theorem Birthday_init_round_trip_witness:
  "Birthday_init (ascii ''15.06.2024'') =
     Inr \<lparr>birthday_value = \<lparr>year = 2024, month = 6, day = 15\<rparr>\<rparr> \<and>
   strftime_dmY False \<lparr>year = 2024, month = 6, day = 15\<rparr> = ascii ''15.06.2024'' \<and>
   Birthday_init (ascii ''5.6.2024'') =
     Inr \<lparr>birthday_value = \<lparr>year = 2024, month = 6, day = 5\<rparr>\<rparr> \<and>
   Birthday_init (ascii '' 5.06.2024'') =
     Inr \<lparr>birthday_value = \<lparr>year = 2024, month = 6, day = 5\<rparr>\<rparr> \<and>
   valid_date \<lparr>year = 2024, month = 6, day = 15\<rparr>"
proof -
  let ?dt = "\<lparr>year = 2024, month = 6, day = 15\<rparr>"
  let ?d5 = "\<lparr>year = 2024, month = 6, day = 5\<rparr>"
  have s: "DDMMYYYY 1 5 0 6 2 0 2 4 = ascii ''15.06.2024''"
    by (simp add: DDMMYYYY_def ascii_def)
  have dt: "named_date 1 5 0 6 2 0 2 4 = ?dt"
    by (simp add: named_date_def)
  have d5: "named_date 0 5 0 6 2 0 2 4 = ?d5"
    by (simp add: named_date_def)
  have hyp: "(1::nat) < 10 \<and> (5::nat) < 10 \<and> (0::nat) < 10 \<and> (6::nat) < 10 \<and> (2::nat) < 10 \<and>
    (0::nat) < 10 \<and> (2::nat) < 10 \<and> (4::nat) < 10 \<and> valid_date (named_date 1 5 0 6 2 0 2 4)"
    by (simp add: named_date_def valid_date_def date_eval)
  have year: "False \<or> 1000 \<le> year (named_date 1 5 0 6 2 0 2 4)"
    by (simp add: named_date_def)
  have short: "(0::nat) < 10 \<and> (5::nat) < 10 \<and> (0::nat) < 10 \<and> (6::nat) < 10 \<and> (2::nat) < 10 \<and>
    (0::nat) < 10 \<and> (2::nat) < 10 \<and> (4::nat) < 10 \<and> valid_date (named_date 0 5 0 6 2 0 2 4) \<and>
    [53] \<in> set (day_texts 0 5) \<and> [54] \<in> set (month_texts 0 6)"
    by (simp add: named_date_def valid_date_def date_eval day_texts_def month_texts_def)
  have spaced: "(0::nat) < 10 \<and> (5::nat) < 10 \<and> (0::nat) < 10 \<and> (6::nat) < 10 \<and> (2::nat) < 10 \<and>
    (0::nat) < 10 \<and> (2::nat) < 10 \<and> (4::nat) < 10 \<and> valid_date (named_date 0 5 0 6 2 0 2 4) \<and>
    [32, 53] \<in> set (day_texts 0 5) \<and> [48, 54] \<in> set (month_texts 0 6)"
    by (simp add: named_date_def valid_date_def date_eval day_texts_def month_texts_def)
  note t = Birthday_init_round_trip [of 1 5 0 6 2 0 2 4 False _ _ "ascii ''15.06.2024''"
      "\<lparr>birthday_value = ?dt\<rparr>", THEN conjunct1, THEN mp, OF hyp]
  from t have parse: "Birthday_init (ascii ''15.06.2024'') = Inr \<lparr>birthday_value = ?dt\<rparr>"
    by (simp only: s dt)
  from t year have format: "strftime_dmY False ?dt = ascii ''15.06.2024''"
    by (simp only: s dt simp_thms)
  from Birthday_init_round_trip [of 0 5 0 6 2 0 2 4 _ "[53]" "[54]" _ _,
      THEN conjunct2, THEN conjunct1, THEN mp, OF short]
  have unpadded: "Birthday_init (ascii ''5.6.2024'') = Inr \<lparr>birthday_value = ?d5\<rparr>"
    by (simp add: d5 ascii_def)
  from Birthday_init_round_trip [of 0 5 0 6 2 0 2 4 _ "[32, 53]" "[48, 54]" _ _,
      THEN conjunct2, THEN conjunct1, THEN mp, OF spaced]
  have space: "Birthday_init (ascii '' 5.06.2024'') = Inr \<lparr>birthday_value = ?d5\<rparr>"
    by (simp add: d5 ascii_def)
  from Birthday_init_round_trip [of _ _ _ _ _ _ _ _ _ _ _ "ascii ''15.06.2024''"
      "\<lparr>birthday_value = ?dt\<rparr>", THEN conjunct2, THEN conjunct2, THEN conjunct1, THEN iffD1,
      OF parse]
  have "valid_date ?dt" by auto
  with parse format unpadded space show ?thesis by (intro conjI)
qed

text \<open>
  The claim as stated fails. \<^verbatim>\<open>strptime\<close> accepts a day and a month without the leading
  zero, so \<^verbatim>\<open>1.1.2020\<close> is accepted, and the stored date formats as \<^verbatim>\<open>01.01.2020\<close>; it
  accepts a space for the leading zero of the day, and decimal digits that are not
  ASCII (here U+0665 in the day and U+0660, U+0662 in the year). Where the platform
  does not pad \<^verbatim>\<open>%Y\<close>, \<^verbatim>\<open>02.01.0999\<close> is accepted and formats as \<^verbatim>\<open>02.01.999\<close>.
\<close>

theorem Birthday_init_unpadded_counterexample:
  "Birthday_init (ascii ''1.1.2020'') =
     Inr \<lparr>birthday_value = \<lparr>year = 2020, month = 1, day = 1\<rparr>\<rparr> \<and>
   strftime_dmY True \<lparr>year = 2020, month = 1, day = 1\<rparr> = ascii ''01.01.2020'' \<and>
   strftime_dmY False \<lparr>year = 2020, month = 1, day = 1\<rparr> = ascii ''01.01.2020'' \<and>
   Birthday_init (ascii '' 1.01.2020'') =
     Inr \<lparr>birthday_value = \<lparr>year = 2020, month = 1, day = 1\<rparr>\<rparr> \<and>
   Birthday_init [49, 1637, 46, 48, 54, 46, 1634, 1632, 1634, 1632] =
     Inr \<lparr>birthday_value = \<lparr>year = 2020, month = 6, day = 15\<rparr>\<rparr> \<and>
   Birthday_init (ascii ''02.01.0999'') =
     Inr \<lparr>birthday_value = \<lparr>year = 999, month = 1, day = 2\<rparr>\<rparr> \<and>
   strftime_dmY False \<lparr>year = 999, month = 1, day = 2\<rparr> = ascii ''02.01.999''"
proof (intro conjI)
  show "Birthday_init (ascii ''1.1.2020'') =
     Inr \<lparr>birthday_value = \<lparr>year = 2020, month = 1, day = 1\<rparr>\<rparr>"
    by (simp add: strptime_eval date_eval)
  show "strftime_dmY True \<lparr>year = 2020, month = 1, day = 1\<rparr> = ascii ''01.01.2020''"
    by (simp add: strftime_dmY_def two_digits_def year_digits_def four_digits_def ascii_def)
  show "strftime_dmY False \<lparr>year = 2020, month = 1, day = 1\<rparr> = ascii ''01.01.2020''"
    by (simp add: strftime_dmY_def two_digits_def year_digits_def four_digits_def ascii_def)
  show "Birthday_init (ascii '' 1.01.2020'') =
     Inr \<lparr>birthday_value = \<lparr>year = 2020, month = 1, day = 1\<rparr>\<rparr>"
    by (simp add: strptime_eval date_eval)
  show "Birthday_init [49, 1637, 46, 48, 54, 46, 1634, 1632, 1634, 1632] =
     Inr \<lparr>birthday_value = \<lparr>year = 2020, month = 6, day = 15\<rparr>\<rparr>"
    by (simp add: strptime_eval date_eval digit_value_def Nd_blocks_def)
  show "Birthday_init (ascii ''02.01.0999'') =
     Inr \<lparr>birthday_value = \<lparr>year = 999, month = 1, day = 2\<rparr>\<rparr>"
    by (simp add: strptime_eval date_eval)
  show "strftime_dmY False \<lparr>year = 999, month = 1, day = 2\<rparr> = ascii ''02.01.999''"
    by (simp add: strftime_dmY_def two_digits_def year_digits_def four_digits_def ascii_def)
qed

section \<open>Phones of a record\<close>

lemma edit_phone_loop_absent:
  "\<forall>p \<in> set ps. phone_value p \<noteq> old \<Longrightarrow>
   edit_phone_loop ps old new = Raised (ValueError ''Phone number not found.'') ps"
  by (induction ps) auto

lemma edit_phone_loop_first:
  "i < length ps \<Longrightarrow> phone_value (ps ! i) = old \<Longrightarrow> \<forall>j < i. phone_value (ps ! j) \<noteq> old \<Longrightarrow>
   edit_phone_loop ps old new =
     (if fullmatch_d10 new then Returned () (ps[i := (ps ! i)\<lparr>phone_value := new\<rparr>])
      else Raised (ValueError ''Phone number must be 10 digits.'')
             (ps[i := (ps ! i)\<lparr>phone_value := new\<rparr>]))"
proof (induction ps arbitrary: i)
  case Nil
  then show ?case by simp
next
  case (Cons p ps)
  show ?case
  proof (cases i)
    case 0
    with Cons.prems show ?thesis by (simp add: Phone_validate_def)
  next
    case (Suc k)
    with Cons.prems have k: "k < length ps" "phone_value (ps ! k) = old"
      by simp_all
    from Suc Cons.prems(3) have before: "\<forall>j < k. phone_value (ps ! j) \<noteq> old"
      by (metis Suc_less_eq nth_Cons_Suc)
    from Suc Cons.prems(3) have head: "phone_value p \<noteq> old"
      by (metis nth_Cons_0 zero_less_Suc)
    from Cons.IH [OF k before] head Suc show ?thesis by simp
  qed
qed

text \<open>
  Claim C4. \<^verbatim>\<open>edit_phone(old_value, new_value)\<close>: when no phone of the record has the
  value \<open>old_value\<close>, the call raises \<^verbatim>\<open>ValueError("Phone number not found.")\<close> and the
  record is as before. When \<open>i\<close> is the position of the first phone with that value, the
  phone at \<open>i\<close> gets \<open>new_value\<close> and nothing else changes; the call then returns if
  \<open>new_value\<close> passes the validation and raises the validation error otherwise, the
  record holding \<open>new_value\<close> at \<open>i\<close> in both cases.
\<close>

theorem edit_phone_first_match:
  "((\<forall>p \<in> set (phones r). phone_value p \<noteq> old_value) \<longrightarrow>
      edit_phone r old_value new_value = Raised (ValueError ''Phone number not found.'') r) \<and>
   (\<forall>i. i < length (phones r) \<and> phone_value (phones r ! i) = old_value \<and>
        (\<forall>j < i. phone_value (phones r ! j) \<noteq> old_value) \<longrightarrow>
      edit_phone r old_value new_value =
        (if fullmatch_d10 new_value
         then Returned () (r\<lparr>phones := (phones r)[i := (phones r ! i)\<lparr>phone_value := new_value\<rparr>]\<rparr>)
         else Raised (ValueError ''Phone number must be 10 digits.'')
                (r\<lparr>phones := (phones r)[i := (phones r ! i)\<lparr>phone_value := new_value\<rparr>]\<rparr>)))"
proof (intro conjI impI allI)
  assume "\<forall>p \<in> set (phones r). phone_value p \<noteq> old_value"
  then show "edit_phone r old_value new_value = Raised (ValueError ''Phone number not found.'') r"
    by (simp add: edit_phone_def edit_phone_loop_absent)
next
  fix i
  assume "i < length (phones r) \<and> phone_value (phones r ! i) = old_value \<and>
        (\<forall>j < i. phone_value (phones r ! j) \<noteq> old_value)"
  then have "edit_phone_loop (phones r) old_value new_value =
     (if fullmatch_d10 new_value then Returned () ((phones r)[i := (phones r ! i)\<lparr>phone_value := new_value\<rparr>])
      else Raised (ValueError ''Phone number must be 10 digits.'')
             ((phones r)[i := (phones r ! i)\<lparr>phone_value := new_value\<rparr>]))"
    by (intro edit_phone_loop_first) simp_all
  then show "edit_phone r old_value new_value =
        (if fullmatch_d10 new_value
         then Returned () (r\<lparr>phones := (phones r)[i := (phones r ! i)\<lparr>phone_value := new_value\<rparr>]\<rparr>)
         else Raised (ValueError ''Phone number must be 10 digits.'')
                (r\<lparr>phones := (phones r)[i := (phones r ! i)\<lparr>phone_value := new_value\<rparr>]\<rparr>))"
    by (simp add: edit_phone_def)
qed

theorem edit_phone_first_match_witness:
  "edit_phone \<lparr>name = \<lparr>name_value = ascii ''Al''\<rparr>,
               phones = [\<lparr>phone_value = ascii ''5555555555''\<rparr>, \<lparr>phone_value = ascii ''1111111111''\<rparr>,
                         \<lparr>phone_value = ascii ''1111111111''\<rparr>],
               birthday = None\<rparr> (ascii ''1111111111'') (ascii ''12'')
   = Raised (ValueError ''Phone number must be 10 digits.'')
       \<lparr>name = \<lparr>name_value = ascii ''Al''\<rparr>,
        phones = [\<lparr>phone_value = ascii ''5555555555''\<rparr>, \<lparr>phone_value = ascii ''12''\<rparr>,
                  \<lparr>phone_value = ascii ''1111111111''\<rparr>],
        birthday = None\<rparr> \<and>
   edit_phone \<lparr>name = \<lparr>name_value = ascii ''Al''\<rparr>,
               phones = [\<lparr>phone_value = ascii ''5555555555''\<rparr>], birthday = None\<rparr>
     (ascii ''1111111111'') (ascii ''2222222222'')
   = Raised (ValueError ''Phone number not found.'')
       \<lparr>name = \<lparr>name_value = ascii ''Al''\<rparr>,
        phones = [\<lparr>phone_value = ascii ''5555555555''\<rparr>], birthday = None\<rparr>"
proof -
  let ?r = "\<lparr>name = \<lparr>name_value = ascii ''Al''\<rparr>,
               phones = [\<lparr>phone_value = ascii ''5555555555''\<rparr>, \<lparr>phone_value = ascii ''1111111111''\<rparr>,
                         \<lparr>phone_value = ascii ''1111111111''\<rparr>],
               birthday = None\<rparr>"
  let ?q = "\<lparr>name = \<lparr>name_value = ascii ''Al''\<rparr>,
               phones = [\<lparr>phone_value = ascii ''5555555555''\<rparr>], birthday = None\<rparr>"
  have found: "1 < length (phones ?r) \<and> phone_value (phones ?r ! 1) = ascii ''1111111111'' \<and>
        (\<forall>j < 1. phone_value (phones ?r ! j) \<noteq> ascii ''1111111111'')"
    by (simp add: ascii_def)
  have absent: "\<forall>p \<in> set (phones ?q). phone_value p \<noteq> ascii ''1111111111''"
    by (simp add: ascii_def)
  have invalid: "\<not> fullmatch_d10 (ascii ''12'')"
    by (simp add: fullmatch_d10_def ascii_def)
  note a = edit_phone_first_match [of ?r "ascii ''1111111111''" "ascii ''12''",
      THEN conjunct2, THEN spec, THEN mp, OF found]
  note b = edit_phone_first_match [of ?q "ascii ''1111111111''" "ascii ''2222222222''",
      THEN conjunct1, THEN mp, OF absent]
  from a invalid
  have "edit_phone ?r (ascii ''1111111111'') (ascii ''12'') =
    Raised (ValueError ''Phone number must be 10 digits.'')
      (?r\<lparr>phones := (phones ?r)[1 := (phones ?r ! 1)\<lparr>phone_value := ascii ''12''\<rparr>]\<rparr>)"
    by (simp only: if_False)
  then have "edit_phone ?r (ascii ''1111111111'') (ascii ''12'') =
    Raised (ValueError ''Phone number must be 10 digits.'')
       \<lparr>name = \<lparr>name_value = ascii ''Al''\<rparr>,
        phones = [\<lparr>phone_value = ascii ''5555555555''\<rparr>, \<lparr>phone_value = ascii ''12''\<rparr>,
                  \<lparr>phone_value = ascii ''1111111111''\<rparr>],
        birthday = None\<rparr>"
    by simp
  from this b show ?thesis by (rule conjI)
qed

text \<open>
  Claim C9. \<^verbatim>\<open>remove_phone(value)\<close> never raises; the phones it leaves are the phones
  whose value differs from \<open>value\<close>, in their former order; name and birthday are as
  before; and when no phone has the value, the record is unchanged.
\<close>

theorem remove_phone_filters:
  "remove_phone r v = Returned () (state_after (remove_phone r v)) \<and>
   phones (state_after (remove_phone r v)) = filter (\<lambda>p. phone_value p \<noteq> v) (phones r) \<and>
   name (state_after (remove_phone r v)) = name r \<and>
   birthday (state_after (remove_phone r v)) = birthday r \<and>
   ((\<forall>p \<in> set (phones r). phone_value p \<noteq> v) \<longrightarrow> state_after (remove_phone r v) = r)"
  by (simp add: remove_phone_def)

theorem remove_phone_filters_witness:
  "remove_phone \<lparr>name = \<lparr>name_value = ascii ''Al''\<rparr>,
                 phones = [\<lparr>phone_value = ascii ''5555555555''\<rparr>], birthday = None\<rparr>
     (ascii ''1111111111'')
   = Returned () \<lparr>name = \<lparr>name_value = ascii ''Al''\<rparr>,
                  phones = [\<lparr>phone_value = ascii ''5555555555''\<rparr>], birthday = None\<rparr>"
proof -
  let ?q = "\<lparr>name = \<lparr>name_value = ascii ''Al''\<rparr>,
               phones = [\<lparr>phone_value = ascii ''5555555555''\<rparr>], birthday = None\<rparr>"
  have absent: "\<forall>p \<in> set (phones ?q). phone_value p \<noteq> ascii ''1111111111''"
    by (simp add: ascii_def)
  note t = remove_phone_filters [of ?q "ascii ''1111111111''"]
  from t have same: "state_after (remove_phone ?q (ascii ''1111111111'')) = ?q"
    using absent by blast
  from t have "remove_phone ?q (ascii ''1111111111'') =
      Returned () (state_after (remove_phone ?q (ascii ''1111111111'')))"
    by (rule conjunct1)
  then show ?thesis by (simp only: same)
qed

section \<open>The directory\<close>

lemma setitem_same: "map_of kvs k = Some v \<Longrightarrow> setitem kvs k v = kvs"
  by (induction kvs) (auto split: if_splits)

lemma set_setitem: "set (setitem kvs k v) \<subseteq> insert (k, v) (set kvs)"
  by (induction kvs) (auto split: if_splits)

lemma setitem_new: "k \<notin> set (keys kvs) \<Longrightarrow> setitem kvs k v = kvs @ [(k, v)]"
  by (induction kvs) (auto simp: keys_def)

lemma add_phone_name: "name (state_after (add_phone r p)) = name r"
  by (simp add: add_phone_def split: sum.split)

lemma remove_phone_name: "name (state_after (remove_phone r p)) = name r"
  by (simp add: remove_phone_def)

lemma edit_phone_name: "name (state_after (edit_phone r a b)) = name r"
  by (simp add: edit_phone_def split: outcome.split)

lemma add_birthday_name: "name (state_after (add_birthday r s)) = name r"
  by (simp add: add_birthday_def split: sum.split)

lemma keyed_setitem:
  "keyed_by_name book \<Longrightarrow> name_value (name r) = k \<Longrightarrow> keyed_by_name (setitem book k r)"
  using set_setitem [of book k r] by (auto simp: keyed_by_name_def)

lemma keyed_on_record:
  assumes "keyed_by_name book" and "\<And>r. name (state_after (method r)) = name r"
  shows "keyed_by_name (state_after (on_record book n method))"
proof (cases "map_of book n")
  case None
  with assms(1) show ?thesis by (simp add: on_record_def)
next
  case (Some r)
  then have "(n, r) \<in> set book" by (rule map_of_SomeD)
  with assms(1) have "name_value (name r) = n" by (auto simp: keyed_by_name_def)
  with assms(2) [of r] have "name_value (name (state_after (method r))) = n" by simp
  with assms(1) have "keyed_by_name (setitem book n (state_after (method r)))"
    by (intro keyed_setitem)
  with Some show ?thesis by (cases "method r") (simp_all add: on_record_def)
qed

lemma keyed_perform: "keyed_by_name book \<Longrightarrow> keyed_by_name (state_after (perform book op))"
proof (cases op)
  case (AddRecord r)
  assume "keyed_by_name book"
  with AddRecord show ?thesis by (simp add: add_record_def keyed_setitem)
next
  case (Delete n)
  assume "keyed_by_name book"
  with Delete show ?thesis by (auto simp: delete_def delitem_def keyed_by_name_def)
next
  case (AddPhone n p)
  assume "keyed_by_name book"
  with AddPhone show ?thesis by (simp add: keyed_on_record add_phone_name)
next
  case (RemovePhone n p)
  assume "keyed_by_name book"
  with RemovePhone show ?thesis by (simp add: keyed_on_record remove_phone_name)
next
  case (EditPhone n a b)
  assume "keyed_by_name book"
  with EditPhone show ?thesis by (simp add: keyed_on_record edit_phone_name)
next
  case (AddBirthday n s)
  assume "keyed_by_name book"
  with AddBirthday show ?thesis by (simp add: keyed_on_record add_birthday_name)
qed

lemma reachable_keyed: "reachable book \<Longrightarrow> keyed_by_name book"
  by (induction rule: reachable.induct) (simp_all add: keyed_by_name_def keyed_perform [unfolded keyed_by_name_def])

text \<open>
  Claim C7. In every book that a sequence of operations (adding a record, deleting a
  name, calling a method of a stored record) builds from the empty book, each entry
  is stored under the value of its record's name.
\<close>

theorem reachable_entries_keyed_by_name:
  "reachable book \<Longrightarrow> (k, r) \<in> set book \<Longrightarrow> name_value (name r) = k"
  using reachable_keyed [of book] by (auto simp: keyed_by_name_def)

theorem reachable_entries_keyed_by_name_witness:
  "reachable [(ascii ''Al'', \<lparr>name = \<lparr>name_value = ascii ''Al''\<rparr>,
                              phones = [\<lparr>phone_value = ascii ''5555555555''\<rparr>], birthday = None\<rparr>)] \<and>
   name_value (name \<lparr>name = \<lparr>name_value = ascii ''Al''\<rparr>,
                     phones = [\<lparr>phone_value = ascii ''5555555555''\<rparr>], birthday = None\<rparr>) = ascii ''Al''"
proof -
  let ?r = "\<lparr>name = \<lparr>name_value = ascii ''Al''\<rparr>,
             phones = [\<lparr>phone_value = ascii ''5555555555''\<rparr>], birthday = None\<rparr>"
  have valid: "fullmatch_d10 (ascii ''5555555555'')"
    by (simp add: fullmatch_d10_def ascii_def is_decimal_ascii)
  have one: "state_after (perform [] (AddRecord (Record_init (ascii ''Al'')))) =
      [(ascii ''Al'', Record_init (ascii ''Al''))]"
    by (simp add: add_record_def Record_init_def)
  have two: "state_after (perform [(ascii ''Al'', Record_init (ascii ''Al''))]
      (AddPhone (ascii ''Al'') (ascii ''5555555555''))) = [(ascii ''Al'', ?r)]"
    using valid
    by (simp add: on_record_def add_phone_def Phone_init_def Phone_validate_def Record_init_def)
  have "reachable (state_after (perform [] (AddRecord (Record_init (ascii ''Al'')))))"
    by (rule reachable.step [OF reachable.empty])
  then have "reachable [(ascii ''Al'', Record_init (ascii ''Al''))]"
    by (simp only: one)
  then have "reachable (state_after (perform [(ascii ''Al'', Record_init (ascii ''Al''))]
      (AddPhone (ascii ''Al'') (ascii ''5555555555''))))"
    by (rule reachable.step)
  then have r: "reachable [(ascii ''Al'', ?r)]"
    by (simp only: two)
  have "(ascii ''Al'', ?r) \<in> set [(ascii ''Al'', ?r)]"
    by simp
  with r have "name_value (name ?r) = ascii ''Al''"
    by (rule reachable_entries_keyed_by_name)
  with r show ?thesis by (rule conjI)
qed

lemma on_record_raised_unchanged:
  assumes "\<And>r e r'. method r = Raised e r' \<Longrightarrow> r' = r"
    and "on_record book n method = Raised e book'"
  shows "book' = book"
proof (cases "map_of book n")
  case None
  with assms(2) show ?thesis by (simp add: on_record_def)
next
  case (Some r)
  show ?thesis
  proof (cases "method r")
    case (Returned u r')
    with Some assms(2) show ?thesis by (simp add: on_record_def)
  next
    case (Raised e' r')
    with assms(1) have "r' = r" by blast
    with Some Raised assms(2) show ?thesis by (simp add: on_record_def setitem_same)
  qed
qed

lemma add_phone_raised: "add_phone r p = Raised e r' \<Longrightarrow> r' = r"
  by (simp add: add_phone_def split: sum.splits)

lemma add_birthday_raised: "add_birthday r s = Raised e r' \<Longrightarrow> r' = r"
  by (simp add: add_birthday_def split: sum.splits)

lemma delete_raised: "delete book n = Raised e book' \<Longrightarrow> book' = book"
  by (simp add: delete_def split: if_splits)

lemma perform_raised_unchanged:
  assumes "\<forall>n a b. op \<noteq> EditPhone n a b" and "perform book op = Raised e book'"
  shows "book' = book"
proof (cases op)
  case (AddRecord r)
  with assms(2) show ?thesis by (simp add: add_record_def)
next
  case (Delete n)
  with assms(2) show ?thesis by (simp add: delete_raised)
next
  case (AddPhone n p)
  with assms(2) have "on_record book n (\<lambda>r. add_phone r p) = Raised e book'" by simp
  then show ?thesis by (rule on_record_raised_unchanged [rotated]) (rule add_phone_raised)
next
  case (RemovePhone n p)
  with assms(2) have "on_record book n (\<lambda>r. remove_phone r p) = Raised e book'" by simp
  then show ?thesis
    by (rule on_record_raised_unchanged [rotated]) (simp add: remove_phone_def)
next
  case (EditPhone n a b)
  with assms(1) show ?thesis by simp
next
  case (AddBirthday n s)
  with assms(2) have "on_record book n (\<lambda>r. add_birthday r s) = Raised e book'" by simp
  then show ?thesis by (rule on_record_raised_unchanged [rotated]) (rule add_birthday_raised)
qed

text \<open>
  Claim C8. An operation other than \<^verbatim>\<open>edit_phone\<close> that raises leaves its object as it
  was: \<^verbatim>\<open>add_phone\<close> (which raises on every value the validation rejects) leaves the
  record, \<^verbatim>\<open>add_birthday\<close> (which raises whenever the date does not parse) leaves the
  record, \<^verbatim>\<open>delete\<close> (which raises on every absent name) leaves the book, and so does
  every such operation performed on a book.
\<close>

theorem failed_operation_leaves_state:
  "(add_phone r p = Raised e r' \<longrightarrow> r' = r) \<and>
   (\<not> fullmatch_d10 p \<longrightarrow>
      add_phone r p = Raised (ValueError ''Phone number must be 10 digits.'') r) \<and>
   (add_birthday r s = Raised e r' \<longrightarrow> r' = r) \<and>
   (Birthday_init s = Inl e \<longrightarrow> add_birthday r s = Raised e r) \<and>
   (delete book n = Raised e book' \<longrightarrow> book' = book) \<and>
   (n \<notin> set (keys book) \<longrightarrow> delete book n = Raised (ValueError ''Contact not found.'') book) \<and>
   ((\<forall>n a b. op \<noteq> EditPhone n a b) \<and> perform book op = Raised e book' \<longrightarrow> book' = book)"
proof (intro conjI impI)
  show "add_phone r p = Raised e r' \<Longrightarrow> r' = r" by (rule add_phone_raised)
  show "\<not> fullmatch_d10 p \<Longrightarrow>
      add_phone r p = Raised (ValueError ''Phone number must be 10 digits.'') r"
    by (simp add: add_phone_def Phone_init_def Phone_validate_def)
  show "add_birthday r s = Raised e r' \<Longrightarrow> r' = r" by (rule add_birthday_raised)
  show "Birthday_init s = Inl e \<Longrightarrow> add_birthday r s = Raised e r"
    by (simp add: add_birthday_def)
  show "delete book n = Raised e book' \<Longrightarrow> book' = book" by (rule delete_raised)
  show "n \<notin> set (keys book) \<Longrightarrow> delete book n = Raised (ValueError ''Contact not found.'') book"
    by (simp add: delete_def)
  show "(\<forall>n a b. op \<noteq> EditPhone n a b) \<and> perform book op = Raised e book' \<Longrightarrow> book' = book"
    using perform_raised_unchanged by blast
qed

theorem failed_operation_leaves_state_witness:
  "add_phone (Record_init (ascii ''Al'')) (ascii ''12'')
     = Raised (ValueError ''Phone number must be 10 digits.'') (Record_init (ascii ''Al'')) \<and>
   add_birthday (Record_init (ascii ''Al'')) (ascii ''31.02.2020'')
     = Raised (ValueError ''Invalid date format. Use DD.MM.YYYY'') (Record_init (ascii ''Al'')) \<and>
   delete [(ascii ''Al'', Record_init (ascii ''Al''))] (ascii ''Bo'')
     = Raised (ValueError ''Contact not found.'') [(ascii ''Al'', Record_init (ascii ''Al''))] \<and>
   perform [(ascii ''Al'', Record_init (ascii ''Al''))] (AddPhone (ascii ''Al'') (ascii ''12''))
     = Raised (ValueError ''Phone number must be 10 digits.'') [(ascii ''Al'', Record_init (ascii ''Al''))]"
proof -
  let ?r = "Record_init (ascii ''Al'')"
  let ?e = "ValueError ''Phone number must be 10 digits.''"
  let ?f = "ValueError ''Invalid date format. Use DD.MM.YYYY''"
  let ?op = "AddPhone (ascii ''Al'') (ascii ''12'')"
  have invalid: "\<not> fullmatch_d10 (ascii ''12'')"
    by (simp add: fullmatch_d10_def ascii_def)
  have unparsed: "Birthday_init (ascii ''31.02.2020'') = Inl ?f"
    by (rule Birthday_init_31_02)
  have absent: "ascii ''Bo'' \<notin> set (keys [(ascii ''Al'', ?r)])"
    by (simp add: keys_def ascii_def)
  have "\<exists>b. perform [(ascii ''Al'', ?r)] ?op = Raised ?e b"
    using invalid
    by (simp add: on_record_def add_phone_def Phone_init_def Phone_validate_def)
  then obtain b where b: "perform [(ascii ''Al'', ?r)] ?op = Raised ?e b"
    by blast
  have other: "\<forall>n a b. ?op \<noteq> EditPhone n a b"
    by simp
  note t = failed_operation_leaves_state [of ?r "ascii ''12''" ?e ?r "ascii ''31.02.2020''"
        "[(ascii ''Al'', ?r)]" "ascii ''Bo''" b ?op]
  note u = failed_operation_leaves_state [of ?r "ascii ''12''" ?f ?r "ascii ''31.02.2020''"
        "[(ascii ''Al'', ?r)]" "ascii ''Bo''" b ?op]
  from t invalid have first: "add_phone ?r (ascii ''12'') = Raised ?e ?r"
    by blast
  from u unparsed have second: "add_birthday ?r (ascii ''31.02.2020'') = Raised ?f ?r"
    by blast
  from t absent have third: "delete [(ascii ''Al'', ?r)] (ascii ''Bo'')
     = Raised (ValueError ''Contact not found.'') [(ascii ''Al'', ?r)]"
    by blast
  from t other b have "b = [(ascii ''Al'', ?r)]"
    by blast
  with b have fourth: "perform [(ascii ''Al'', ?r)] ?op = Raised ?e [(ascii ''Al'', ?r)]"
    by simp
  from first second third fourth show ?thesis by blast
qed

section \<open>Upcoming birthdays\<close>

lemma upcoming_loop_filter:
  "upcoming_loop today records acc = Inr out \<Longrightarrow> out = acc @ filter (appended today) records"
proof (induction records arbitrary: acc)
  case Nil
  then show ?case by simp
next
  case (Cons r rs)
  show ?case
  proof (cases "birthday r")
    case None
    with Cons show ?thesis by (simp add: appended_def)
  next
    case (Some b)
    show ?thesis
    proof (cases "days_until_birthday today (birthday_value b)")
      case (Inl e)
      with Some Cons.prems show ?thesis by simp
    next
      case (Inr days)
      show ?thesis
      proof (cases "0 \<le> days \<and> days \<le> 7")
        case True
        with Some Inr Cons.prems have "upcoming_loop today rs (acc @ [r]) = Inr out" by simp
        then have "out = (acc @ [r]) @ filter (appended today) rs" by (rule Cons.IH)
        moreover from True Some Inr have "appended today r" by (simp add: appended_def)
        ultimately show ?thesis by simp
      next
        case False
        with Some Inr Cons.prems have "upcoming_loop today rs acc = Inr out" by auto
        then have "out = acc @ filter (appended today) rs" by (rule Cons.IH)
        moreover from False Some Inr have "\<not> appended today r" by (simp add: appended_def)
        ultimately show ?thesis by simp
      qed
    qed
  qed
qed

lemma get_upcoming_birthdays_filter:
  "get_upcoming_birthdays today book = Returned rs book' \<Longrightarrow>
   rs = filter (appended today) (values_of book)"
  using upcoming_loop_filter [of today "values_of book" "[]" rs]
  by (simp add: get_upcoming_birthdays_def split: sum.splits)

text \<open>
  Claim C5. The sequence that \<^verbatim>\<open>get_upcoming_birthdays\<close> returns is the sequence of the
  book's records, in the book's iteration order, restricted to the records the loop
  appends; a record added under a new name comes last in that order. The order is not
  by proximity of the date: a book holding first a birthday 6 days ahead and then a
  birthday 1 day ahead yields them in this order.
\<close>

theorem upcoming_in_insertion_order:
  "(get_upcoming_birthdays today book = Returned rs book' \<longrightarrow>
      rs = filter (appended today) (values_of book)) \<and>
   (name_value (name r) \<notin> set (keys book) \<longrightarrow>
      add_record book r = Returned () (book @ [(name_value (name r), r)])) \<and>
   get_upcoming_birthdays \<lparr>year = 2024, month = 6, day = 10\<rparr>
     [(ascii ''Bo'', \<lparr>name = \<lparr>name_value = ascii ''Bo''\<rparr>, phones = [],
         birthday = Some \<lparr>birthday_value = \<lparr>year = 1990, month = 6, day = 16\<rparr>\<rparr>\<rparr>),
      (ascii ''Al'', \<lparr>name = \<lparr>name_value = ascii ''Al''\<rparr>, phones = [],
         birthday = Some \<lparr>birthday_value = \<lparr>year = 1985, month = 6, day = 11\<rparr>\<rparr>\<rparr>)]
   = Returned
       [\<lparr>name = \<lparr>name_value = ascii ''Bo''\<rparr>, phones = [],
          birthday = Some \<lparr>birthday_value = \<lparr>year = 1990, month = 6, day = 16\<rparr>\<rparr>\<rparr>,
        \<lparr>name = \<lparr>name_value = ascii ''Al''\<rparr>, phones = [],
          birthday = Some \<lparr>birthday_value = \<lparr>year = 1985, month = 6, day = 11\<rparr>\<rparr>\<rparr>]
       [(ascii ''Bo'', \<lparr>name = \<lparr>name_value = ascii ''Bo''\<rparr>, phones = [],
           birthday = Some \<lparr>birthday_value = \<lparr>year = 1990, month = 6, day = 16\<rparr>\<rparr>\<rparr>),
        (ascii ''Al'', \<lparr>name = \<lparr>name_value = ascii ''Al''\<rparr>, phones = [],
           birthday = Some \<lparr>birthday_value = \<lparr>year = 1985, month = 6, day = 11\<rparr>\<rparr>\<rparr>)] \<and>
   days_until_birthday \<lparr>year = 2024, month = 6, day = 10\<rparr> \<lparr>year = 1990, month = 6, day = 16\<rparr> = Inr 6 \<and>
   days_until_birthday \<lparr>year = 2024, month = 6, day = 10\<rparr> \<lparr>year = 1985, month = 6, day = 11\<rparr> = Inr 1"
proof (intro conjI impI)
  show "get_upcoming_birthdays today book = Returned rs book' \<Longrightarrow>
      rs = filter (appended today) (values_of book)"
    by (rule get_upcoming_birthdays_filter)
  show "name_value (name r) \<notin> set (keys book) \<Longrightarrow>
      add_record book r = Returned () (book @ [(name_value (name r), r)])"
    by (simp add: add_record_def setitem_new)
  show six: "days_until_birthday \<lparr>year = 2024, month = 6, day = 10\<rparr> \<lparr>year = 1990, month = 6, day = 16\<rparr> = Inr 6"
    by (simp add: days_until_birthday_def date_eval)
  show one: "days_until_birthday \<lparr>year = 2024, month = 6, day = 10\<rparr> \<lparr>year = 1985, month = 6, day = 11\<rparr> = Inr 1"
    by (simp add: days_until_birthday_def date_eval)
  from six one show "get_upcoming_birthdays \<lparr>year = 2024, month = 6, day = 10\<rparr>
     [(ascii ''Bo'', \<lparr>name = \<lparr>name_value = ascii ''Bo''\<rparr>, phones = [],
         birthday = Some \<lparr>birthday_value = \<lparr>year = 1990, month = 6, day = 16\<rparr>\<rparr>\<rparr>),
      (ascii ''Al'', \<lparr>name = \<lparr>name_value = ascii ''Al''\<rparr>, phones = [],
         birthday = Some \<lparr>birthday_value = \<lparr>year = 1985, month = 6, day = 11\<rparr>\<rparr>\<rparr>)]
   = Returned
       [\<lparr>name = \<lparr>name_value = ascii ''Bo''\<rparr>, phones = [],
          birthday = Some \<lparr>birthday_value = \<lparr>year = 1990, month = 6, day = 16\<rparr>\<rparr>\<rparr>,
        \<lparr>name = \<lparr>name_value = ascii ''Al''\<rparr>, phones = [],
          birthday = Some \<lparr>birthday_value = \<lparr>year = 1985, month = 6, day = 11\<rparr>\<rparr>\<rparr>]
       [(ascii ''Bo'', \<lparr>name = \<lparr>name_value = ascii ''Bo''\<rparr>, phones = [],
           birthday = Some \<lparr>birthday_value = \<lparr>year = 1990, month = 6, day = 16\<rparr>\<rparr>\<rparr>),
        (ascii ''Al'', \<lparr>name = \<lparr>name_value = ascii ''Al''\<rparr>, phones = [],
           birthday = Some \<lparr>birthday_value = \<lparr>year = 1985, month = 6, day = 11\<rparr>\<rparr>\<rparr>)]"
    by (simp add: get_upcoming_birthdays_def values_of_def)
qed

theorem upcoming_in_insertion_order_witness:
  "add_record
     [(ascii ''Bo'', \<lparr>name = \<lparr>name_value = ascii ''Bo''\<rparr>, phones = [],
         birthday = Some \<lparr>birthday_value = \<lparr>year = 1990, month = 6, day = 16\<rparr>\<rparr>\<rparr>)]
     \<lparr>name = \<lparr>name_value = ascii ''Al''\<rparr>, phones = [],
        birthday = Some \<lparr>birthday_value = \<lparr>year = 1985, month = 6, day = 11\<rparr>\<rparr>\<rparr>
   = Returned ()
     [(ascii ''Bo'', \<lparr>name = \<lparr>name_value = ascii ''Bo''\<rparr>, phones = [],
         birthday = Some \<lparr>birthday_value = \<lparr>year = 1990, month = 6, day = 16\<rparr>\<rparr>\<rparr>),
      (ascii ''Al'', \<lparr>name = \<lparr>name_value = ascii ''Al''\<rparr>, phones = [],
         birthday = Some \<lparr>birthday_value = \<lparr>year = 1985, month = 6, day = 11\<rparr>\<rparr>\<rparr>)] \<and>
   get_upcoming_birthdays \<lparr>year = 2024, month = 6, day = 10\<rparr>
     [(ascii ''Bo'', \<lparr>name = \<lparr>name_value = ascii ''Bo''\<rparr>, phones = [],
         birthday = Some \<lparr>birthday_value = \<lparr>year = 1990, month = 6, day = 16\<rparr>\<rparr>\<rparr>),
      (ascii ''Al'', \<lparr>name = \<lparr>name_value = ascii ''Al''\<rparr>, phones = [],
         birthday = Some \<lparr>birthday_value = \<lparr>year = 1985, month = 6, day = 11\<rparr>\<rparr>\<rparr>)]
   = Returned
       (filter (appended \<lparr>year = 2024, month = 6, day = 10\<rparr>)
         [\<lparr>name = \<lparr>name_value = ascii ''Bo''\<rparr>, phones = [],
            birthday = Some \<lparr>birthday_value = \<lparr>year = 1990, month = 6, day = 16\<rparr>\<rparr>\<rparr>,
          \<lparr>name = \<lparr>name_value = ascii ''Al''\<rparr>, phones = [],
            birthday = Some \<lparr>birthday_value = \<lparr>year = 1985, month = 6, day = 11\<rparr>\<rparr>\<rparr>])
       [(ascii ''Bo'', \<lparr>name = \<lparr>name_value = ascii ''Bo''\<rparr>, phones = [],
           birthday = Some \<lparr>birthday_value = \<lparr>year = 1990, month = 6, day = 16\<rparr>\<rparr>\<rparr>),
        (ascii ''Al'', \<lparr>name = \<lparr>name_value = ascii ''Al''\<rparr>, phones = [],
           birthday = Some \<lparr>birthday_value = \<lparr>year = 1985, month = 6, day = 11\<rparr>\<rparr>\<rparr>)]"
proof -
  let ?today = "\<lparr>year = 2024, month = 6, day = 10\<rparr>"
  let ?bo = "\<lparr>name = \<lparr>name_value = ascii ''Bo''\<rparr>, phones = [],
         birthday = Some \<lparr>birthday_value = \<lparr>year = 1990, month = 6, day = 16\<rparr>\<rparr>\<rparr>"
  let ?al = "\<lparr>name = \<lparr>name_value = ascii ''Al''\<rparr>, phones = [],
         birthday = Some \<lparr>birthday_value = \<lparr>year = 1985, month = 6, day = 11\<rparr>\<rparr>\<rparr>"
  let ?book = "[(ascii ''Bo'', ?bo), (ascii ''Al'', ?al)]"
  have new: "name_value (name ?al) \<notin> set (keys [(ascii ''Bo'', ?bo)])"
    by (simp add: keys_def ascii_def)
  from upcoming_in_insertion_order [of ?today "[(ascii ''Bo'', ?bo)]" "[]" "[]" ?al,
      THEN conjunct2, THEN conjunct1, THEN mp, OF new]
  have added: "add_record [(ascii ''Bo'', ?bo)] ?al = Returned () ?book"
    by simp
  note t = upcoming_in_insertion_order [of ?today ?book "[?bo, ?al]" ?book ?al]
  from t have run: "get_upcoming_birthdays ?today ?book = Returned [?bo, ?al] ?book"
    by (rule conjunct2 [THEN conjunct2, THEN conjunct1])
  from t have "get_upcoming_birthdays ?today ?book = Returned [?bo, ?al] ?book \<longrightarrow>
      [?bo, ?al] = filter (appended ?today) (values_of ?book)"
    by (rule conjunct1)
  with run have "[?bo, ?al] = filter (appended ?today) (values_of ?book)"
    by (rule rev_mp)
  then have "[?bo, ?al] = filter (appended ?today) [?bo, ?al]"
    by (simp add: values_of_def)
  with run have "get_upcoming_birthdays ?today ?book =
      Returned (filter (appended ?today) [?bo, ?al]) ?book"
    by (simp only:)
  with added show ?thesis by (rule conjI)
qed

subsection \<open>The window of seven days\<close>

lemma replace_year_fields:
  "replace_year b y = Inr c \<Longrightarrow> c = \<lparr>year = y, month = month b, day = day b\<rparr>"
  by (simp add: replace_year_def date_new_def split: if_splits)

lemma days_until_birthday_spec:
  assumes "days_until_birthday today b = Inr d"
  shows "d = spec_final_delta today b"
proof (cases "replace_year b (year today)")
  case (Inl e)
  with assms show ?thesis by (simp add: days_until_birthday_def)
next
  case (Inr c)
  then have c: "c = \<lparr>year = year today, month = month b, day = day b\<rparr>"
    by (rule replace_year_fields)
  show ?thesis
  proof (cases "sub_days c today < 0")
    case False
    with assms Inr have "d = sub_days c today"
      by (simp add: days_until_birthday_def Let_def)
    with False c show ?thesis
      by (simp add: spec_final_delta_def sub_days_def toordinal_def Let_def)
  next
    case True
    show ?thesis
    proof (cases "replace_year c (year today + 1)")
      case (Inl e)
      with assms Inr True show ?thesis by (simp add: days_until_birthday_def Let_def)
    next
      case next_year: (Inr n)
      then have "n = \<lparr>year = year today + 1, month = month c, day = day c\<rparr>"
        by (rule replace_year_fields)
      with c have n: "n = \<lparr>year = year today + 1, month = month b, day = day b\<rparr>" by simp
      from assms Inr True next_year have "d = sub_days n today"
        by (simp add: days_until_birthday_def Let_def)
      with True c n show ?thesis
        by (simp add: spec_final_delta_def sub_days_def toordinal_def Let_def)
    qed
  qed
qed

lemma upcoming_loop_body_returned:
  "upcoming_loop today records acc = Inr out \<Longrightarrow> r \<in> set records \<Longrightarrow> birthday r = Some b \<Longrightarrow>
   \<exists>d. days_until_birthday today (birthday_value b) = Inr d"
proof (induction records arbitrary: acc)
  case Nil
  then show ?case by simp
next
  case (Cons x xs)
  show ?case
  proof (cases "birthday x")
    case None
    with Cons.prems have "upcoming_loop today xs acc = Inr out" "r \<in> set xs"
      by auto
    then show ?thesis using Cons.prems(3) by (rule Cons.IH)
  next
    case (Some bx)
    show ?thesis
    proof (cases "days_until_birthday today (birthday_value bx)")
      case (Inl e)
      with Some Cons.prems(1) show ?thesis by simp
    next
      case (Inr dx)
      show ?thesis
      proof (cases "r = x")
        case True
        with Some Inr Cons.prems(3) show ?thesis by simp
      next
        case False
        with Cons.prems(2) have mem: "r \<in> set xs" by simp
        from Some Inr Cons.prems(1)
        have "\<exists>acc'. upcoming_loop today xs acc' = Inr out"
          by (cases "0 \<le> dx \<and> dx \<le> 7") auto
        then obtain acc' where "upcoming_loop today xs acc' = Inr out" ..
        then show ?thesis using mem Cons.prems(3) by (rule Cons.IH)
      qed
    qed
  qed
qed

lemma days_in_month_other_year:
  "1 \<le> m \<Longrightarrow> m \<le> 12 \<Longrightarrow> d \<le> days_in_month y m \<Longrightarrow> \<not> (m = 2 \<and> d = 29) \<Longrightarrow>
   d \<le> days_in_month y' m"
proof (cases "m = 2")
  case True
  assume "d \<le> days_in_month y m" "\<not> (m = 2 \<and> d = 29)"
  with True have "d \<le> 28"
    by (simp add: days_in_month_def DAYS_IN_MONTH_def split: if_splits)
  with True show ?thesis
    by (simp add: days_in_month_def DAYS_IN_MONTH_def)
next
  case False
  assume "d \<le> days_in_month y m"
  with False show ?thesis by (simp add: days_in_month_def)
qed

lemma get_upcoming_birthdays_member:
  assumes "get_upcoming_birthdays today book = Returned rs book'"
    and "r \<in> set (values_of book)" and "birthday r = Some b"
  shows "r \<in> set rs \<longleftrightarrow>
    0 \<le> spec_final_delta today (birthday_value b) \<and> spec_final_delta today (birthday_value b) \<le> 7"
proof -
  from assms(1) have loop: "upcoming_loop today (values_of book) [] = Inr rs"
    by (simp add: get_upcoming_birthdays_def split: sum.splits)
  from loop assms(2,3) obtain d where d: "days_until_birthday today (birthday_value b) = Inr d"
    using upcoming_loop_body_returned by blast
  then have "d = spec_final_delta today (birthday_value b)"
    by (rule days_until_birthday_spec)
  with d assms(3) have "appended today r \<longleftrightarrow>
    0 \<le> spec_final_delta today (birthday_value b) \<and> spec_final_delta today (birthday_value b) \<le> 7"
    by (simp add: appended_def)
  moreover from assms(1) have "rs = filter (appended today) (values_of book)"
    by (rule get_upcoming_birthdays_filter)
  ultimately show ?thesis using assms(2) by simp
qed

lemma year_10000_message: "''year '' @ format_i 10000 @ '' is out of range'' = ''year 10000 is out of range''"
  by (simp add: format_i_def decimal.simps digit_chars_def)

lemma days_until_birthday_exact:
  assumes today: "valid_date today" and b: "valid_date b" and c: "candidates_exist today b"
  shows "days_until_birthday today b =
    (if passed today b \<and> year today = MAXYEAR
     then Inl (ValueError ''year 10000 is out of range'')
     else Inr (spec_final_delta today b))"
proof -
  from today have y: "MINYEAR \<le> year today" "year today \<le> MAXYEAR"
    by (simp_all add: valid_date_def)
  from b have m: "1 \<le> month b" "month b \<le> 12" and d: "1 \<le> day b"
    by (simp_all add: valid_date_def)
  let ?c = "\<lparr>year = year today, month = month b, day = day b\<rparr>"
  from c have "day b \<le> days_in_month (year today) (month b)"
    by (simp add: candidates_exist_def)
  with y m d have this_year: "replace_year b (year today) = Inr ?c"
    by (simp add: replace_year_def date_new_def)
  have delta: "sub_days ?c today = ymd2ord (year today) (month b) (day b) - toordinal today"
    by (simp add: sub_days_def toordinal_def)
  show ?thesis
  proof (cases "passed today b")
    case False
    with this_year delta show ?thesis
      by (simp add: days_until_birthday_def passed_def spec_final_delta_def Let_def)
  next
    case True
    show ?thesis
    proof (cases "year today = MAXYEAR")
      case last: True
      then have "replace_year ?c (year today + 1) = Inl (ValueError ''year 10000 is out of range'')"
        using year_10000_message by (simp add: replace_year_def date_new_def MAXYEAR_def MINYEAR_def)
      with True last this_year delta show ?thesis
        by (simp add: days_until_birthday_def passed_def Let_def)
    next
      case False
      with y have y': "MINYEAR \<le> year today + 1" "year today + 1 \<le> MAXYEAR"
        by (simp_all add: MINYEAR_def)
      from c True have "day b \<le> days_in_month (year today + 1) (month b)"
        by (simp add: candidates_exist_def passed_def)
      with y' m d have "replace_year ?c (year today + 1) =
          Inr \<lparr>year = year today + 1, month = month b, day = day b\<rparr>"
        by (simp add: replace_year_def date_new_def)
      with True False this_year delta show ?thesis
        by (simp add: days_until_birthday_def passed_def spec_final_delta_def Let_def
            sub_days_def toordinal_def)
    qed
  qed
qed

lemma upcoming_loop_exact:
  assumes "valid_date today"
    and "\<forall>r \<in> set records. \<forall>b. birthday r = Some b \<longrightarrow>
          valid_date (birthday_value b) \<and> candidates_exist today (birthday_value b)"
  shows "upcoming_loop today records acc =
    (if no_overflow today records then Inr (acc @ filter (in_window today) records)
     else Inl (ValueError ''year 10000 is out of range''))"
  using assms(2)
proof (induction records arbitrary: acc)
  case Nil
  then show ?case by (simp add: no_overflow_def)
next
  case (Cons x xs)
  from Cons.prems have rest: "\<forall>r \<in> set xs. \<forall>b. birthday r = Some b \<longrightarrow>
          valid_date (birthday_value b) \<and> candidates_exist today (birthday_value b)"
    by simp
  note IH = Cons.IH [OF rest]
  from assms(1) have top: "year today \<le> MAXYEAR" by (simp add: valid_date_def)
  show ?case
  proof (cases "birthday x")
    case None
    then have "no_overflow today (x # xs) = no_overflow today xs" "\<not> in_window today x"
      by (simp_all add: no_overflow_def in_window_def)
    with None IH [of acc] show ?thesis by simp
  next
    case (Some b)
    with Cons.prems have vb: "valid_date (birthday_value b)"
      "candidates_exist today (birthday_value b)"
      by simp_all
    note du = days_until_birthday_exact [OF assms(1) vb]
    show ?thesis
    proof (cases "passed today (birthday_value b) \<and> year today = MAXYEAR")
      case True
      with Some have "\<not> no_overflow today (x # xs)"
        by (auto simp: no_overflow_def)
      with True Some du show ?thesis by simp
    next
      case False
      with Some top have same: "no_overflow today (x # xs) = no_overflow today xs"
        by (auto simp: no_overflow_def)
      from False du have du': "days_until_birthday today (birthday_value b) =
          Inr (spec_final_delta today (birthday_value b))"
        by simp
      show ?thesis
      proof (cases "in_window today x")
        case True
        with Some du' have "upcoming_loop today (x # xs) acc = upcoming_loop today xs (acc @ [x])"
          by (simp add: in_window_def)
        with True same IH [of "acc @ [x]"] show ?thesis by simp
      next
        case False
        with Some du' have "upcoming_loop today (x # xs) acc = upcoming_loop today xs acc"
          by (auto simp: in_window_def)
        with False same IH [of acc] show ?thesis by simp
      qed
    qed
  qed
qed

lemma get_upcoming_birthdays_exact:
  assumes "valid_date today"
    and "\<forall>r \<in> set (values_of book). \<forall>b. birthday r = Some b \<longrightarrow>
          valid_date (birthday_value b) \<and> candidates_exist today (birthday_value b)"
  shows "get_upcoming_birthdays today book =
    (if no_overflow today (values_of book)
     then Returned (filter (in_window today) (values_of book)) book
     else Raised (ValueError ''year 10000 is out of range'') book)"
  using upcoming_loop_exact [OF assms, of "[]"]
  by (simp add: get_upcoming_birthdays_def)

lemma candidates_exist_ordinary:
  assumes "valid_date b" "\<not> (month b = 2 \<and> day b = 29)"
  shows "candidates_exist today b"
proof -
  from assms(1) have "1 \<le> month b" "month b \<le> 12"
    "day b \<le> days_in_month (year b) (month b)"
    by (simp_all add: valid_date_def)
  with assms(2) have "day b \<le> days_in_month y (month b)" for y
    by (intro days_in_month_other_year [of "month b" "day b" "year b" y]) simp_all
  then show ?thesis by (simp add: candidates_exist_def)
qed

lemma is_leap_next: "is_leap y \<Longrightarrow> \<not> is_leap (y + 1)"
proof -
  assume "is_leap y"
  then have "y mod 4 = 0" by (simp add: is_leap_def)
  then have "(y + 1) mod 4 \<noteq> 0" by arith
  then show ?thesis by (simp add: is_leap_def)
qed

lemma candidates_exist_leap_day:
  assumes "month b = 2" "day b = 29"
  shows "candidates_exist today b \<longleftrightarrow> is_leap (year today) \<and> \<not> passed today b"
proof (cases "is_leap (year today)")
  case False
  with assms show ?thesis
    by (simp add: candidates_exist_def days_in_month_def DAYS_IN_MONTH_def)
next
  case True
  then have "\<not> is_leap (year today + 1)" by (rule is_leap_next)
  with True assms show ?thesis
    by (simp add: candidates_exist_def passed_def days_in_month_def DAYS_IN_MONTH_def)
qed

text \<open>
  Claim C1, as the code has it. For a reference date \<open>today\<close> and a book whose stored
  birthdays have their candidate dates in the calendar (every birthday other than a
  29 February; a 29 February while the year of \<open>today\<close> is a leap year and the day has
  not passed): when the year of \<open>today\<close> is below 9999 or no stored birthday has passed
  this year, \<^verbatim>\<open>get_upcoming_birthdays\<close> returns exactly the records, in the book's order,
  whose final \<open>delta\<close> of the specification lies between 0 and 7; otherwise it raises
  \<^verbatim>\<open>ValueError("year 10000 is out of range")\<close>. Whenever it returns, a record of the book
  with a birthday is in the result exactly when its final \<open>delta\<close> lies between 0 and
  7. With \<open>today\<close> = 28.12.2024, a record with the birthday 02.01.1990 is included,
  \<open>delta\<close> being 5.
\<close>

theorem upcoming_window_exact:
  "(get_upcoming_birthdays today book = Returned rs book' \<and>
    r \<in> set (values_of book) \<and> birthday r = Some b \<longrightarrow>
      (r \<in> set rs \<longleftrightarrow>
         0 \<le> spec_final_delta today (birthday_value b) \<and>
         spec_final_delta today (birthday_value b) \<le> 7)) \<and>
   (valid_date today \<and>
    (\<forall>r \<in> set (values_of book). \<forall>b. birthday r = Some b \<longrightarrow>
        valid_date (birthday_value b) \<and> candidates_exist today (birthday_value b)) \<longrightarrow>
      get_upcoming_birthdays today book =
        (if no_overflow today (values_of book)
         then Returned (filter (in_window today) (values_of book)) book
         else Raised (ValueError ''year 10000 is out of range'') book)) \<and>
   (valid_date d \<and> \<not> (month d = 2 \<and> day d = 29) \<longrightarrow> candidates_exist today d) \<and>
   (month d = 2 \<and> day d = 29 \<longrightarrow>
      (candidates_exist today d \<longleftrightarrow> is_leap (year today) \<and> \<not> passed today d)) \<and>
   get_upcoming_birthdays \<lparr>year = 2024, month = 12, day = 28\<rparr>
     [(ascii ''Bo'', \<lparr>name = \<lparr>name_value = ascii ''Bo''\<rparr>, phones = [],
         birthday = Some \<lparr>birthday_value = \<lparr>year = 1990, month = 1, day = 2\<rparr>\<rparr>\<rparr>)]
   = Returned
     [\<lparr>name = \<lparr>name_value = ascii ''Bo''\<rparr>, phones = [],
         birthday = Some \<lparr>birthday_value = \<lparr>year = 1990, month = 1, day = 2\<rparr>\<rparr>\<rparr>]
     [(ascii ''Bo'', \<lparr>name = \<lparr>name_value = ascii ''Bo''\<rparr>, phones = [],
         birthday = Some \<lparr>birthday_value = \<lparr>year = 1990, month = 1, day = 2\<rparr>\<rparr>\<rparr>)] \<and>
   spec_final_delta \<lparr>year = 2024, month = 12, day = 28\<rparr> \<lparr>year = 1990, month = 1, day = 2\<rparr> = 5"
proof (intro conjI)
  show "get_upcoming_birthdays today book = Returned rs book' \<and>
    r \<in> set (values_of book) \<and> birthday r = Some b \<longrightarrow>
      (r \<in> set rs \<longleftrightarrow>
         0 \<le> spec_final_delta today (birthday_value b) \<and>
         spec_final_delta today (birthday_value b) \<le> 7)"
    using get_upcoming_birthdays_member by blast
  show "valid_date today \<and>
    (\<forall>r \<in> set (values_of book). \<forall>b. birthday r = Some b \<longrightarrow>
        valid_date (birthday_value b) \<and> candidates_exist today (birthday_value b)) \<longrightarrow>
      get_upcoming_birthdays today book =
        (if no_overflow today (values_of book)
         then Returned (filter (in_window today) (values_of book)) book
         else Raised (ValueError ''year 10000 is out of range'') book)"
    using get_upcoming_birthdays_exact by blast
  show "valid_date d \<and> \<not> (month d = 2 \<and> day d = 29) \<longrightarrow> candidates_exist today d"
    using candidates_exist_ordinary by blast
  show "month d = 2 \<and> day d = 29 \<longrightarrow>
      (candidates_exist today d \<longleftrightarrow> is_leap (year today) \<and> \<not> passed today d)"
    using candidates_exist_leap_day by blast
  have "days_until_birthday \<lparr>year = 2024, month = 12, day = 28\<rparr> \<lparr>year = 1990, month = 1, day = 2\<rparr>
      = Inr 5"
    by (simp add: days_until_birthday_def date_eval)
  then show "get_upcoming_birthdays \<lparr>year = 2024, month = 12, day = 28\<rparr>
     [(ascii ''Bo'', \<lparr>name = \<lparr>name_value = ascii ''Bo''\<rparr>, phones = [],
         birthday = Some \<lparr>birthday_value = \<lparr>year = 1990, month = 1, day = 2\<rparr>\<rparr>\<rparr>)]
   = Returned
     [\<lparr>name = \<lparr>name_value = ascii ''Bo''\<rparr>, phones = [],
         birthday = Some \<lparr>birthday_value = \<lparr>year = 1990, month = 1, day = 2\<rparr>\<rparr>\<rparr>]
     [(ascii ''Bo'', \<lparr>name = \<lparr>name_value = ascii ''Bo''\<rparr>, phones = [],
         birthday = Some \<lparr>birthday_value = \<lparr>year = 1990, month = 1, day = 2\<rparr>\<rparr>\<rparr>)]"
    by (simp add: get_upcoming_birthdays_def values_of_def)
  show "spec_final_delta \<lparr>year = 2024, month = 12, day = 28\<rparr> \<lparr>year = 1990, month = 1, day = 2\<rparr> = 5"
    by (simp add: spec_final_delta_def date_eval)
qed

lemmas window_eval =
  valid_date_def candidates_exist_def passed_def no_overflow_def in_window_def
  spec_final_delta_def values_of_def

theorem upcoming_window_exact_witness:
  "get_upcoming_birthdays \<lparr>year = 2024, month = 2, day = 25\<rparr>
     [(ascii ''Al'', \<lparr>name = \<lparr>name_value = ascii ''Al''\<rparr>, phones = [],
         birthday = Some \<lparr>birthday_value = \<lparr>year = 2000, month = 2, day = 29\<rparr>\<rparr>\<rparr>),
      (ascii ''Bo'', \<lparr>name = \<lparr>name_value = ascii ''Bo''\<rparr>, phones = [],
         birthday = Some \<lparr>birthday_value = \<lparr>year = 1990, month = 6, day = 1\<rparr>\<rparr>\<rparr>)]
   = Returned
     [\<lparr>name = \<lparr>name_value = ascii ''Al''\<rparr>, phones = [],
         birthday = Some \<lparr>birthday_value = \<lparr>year = 2000, month = 2, day = 29\<rparr>\<rparr>\<rparr>]
     [(ascii ''Al'', \<lparr>name = \<lparr>name_value = ascii ''Al''\<rparr>, phones = [],
         birthday = Some \<lparr>birthday_value = \<lparr>year = 2000, month = 2, day = 29\<rparr>\<rparr>\<rparr>),
      (ascii ''Bo'', \<lparr>name = \<lparr>name_value = ascii ''Bo''\<rparr>, phones = [],
         birthday = Some \<lparr>birthday_value = \<lparr>year = 1990, month = 6, day = 1\<rparr>\<rparr>\<rparr>)] \<and>
   get_upcoming_birthdays \<lparr>year = 9999, month = 1, day = 1\<rparr>
     [(ascii ''Bo'', \<lparr>name = \<lparr>name_value = ascii ''Bo''\<rparr>, phones = [],
         birthday = Some \<lparr>birthday_value = \<lparr>year = 1990, month = 1, day = 3\<rparr>\<rparr>\<rparr>)]
   = Returned
     [\<lparr>name = \<lparr>name_value = ascii ''Bo''\<rparr>, phones = [],
         birthday = Some \<lparr>birthday_value = \<lparr>year = 1990, month = 1, day = 3\<rparr>\<rparr>\<rparr>]
     [(ascii ''Bo'', \<lparr>name = \<lparr>name_value = ascii ''Bo''\<rparr>, phones = [],
         birthday = Some \<lparr>birthday_value = \<lparr>year = 1990, month = 1, day = 3\<rparr>\<rparr>\<rparr>)] \<and>
   get_upcoming_birthdays \<lparr>year = 9999, month = 12, day = 31\<rparr>
     [(ascii ''Bo'', \<lparr>name = \<lparr>name_value = ascii ''Bo''\<rparr>, phones = [],
         birthday = Some \<lparr>birthday_value = \<lparr>year = 1990, month = 1, day = 3\<rparr>\<rparr>\<rparr>)]
   = Raised (ValueError ''year 10000 is out of range'')
     [(ascii ''Bo'', \<lparr>name = \<lparr>name_value = ascii ''Bo''\<rparr>, phones = [],
         birthday = Some \<lparr>birthday_value = \<lparr>year = 1990, month = 1, day = 3\<rparr>\<rparr>\<rparr>)]"
proof -
  let ?leap = "\<lparr>year = 2000, month = 2, day = 29\<rparr>"
  let ?june = "\<lparr>year = 1990, month = 6, day = 1\<rparr>"
  let ?jan = "\<lparr>year = 1990, month = 1, day = 3\<rparr>"
  let ?al = "\<lparr>name = \<lparr>name_value = ascii ''Al''\<rparr>, phones = [],
         birthday = Some \<lparr>birthday_value = ?leap\<rparr>\<rparr>"
  let ?bo = "\<lparr>name = \<lparr>name_value = ascii ''Bo''\<rparr>, phones = [],
         birthday = Some \<lparr>birthday_value = ?june\<rparr>\<rparr>"
  let ?bj = "\<lparr>name = \<lparr>name_value = ascii ''Bo''\<rparr>, phones = [],
         birthday = Some \<lparr>birthday_value = ?jan\<rparr>\<rparr>"
  let ?t1 = "\<lparr>year = 2024, month = 2, day = 25\<rparr>"
  let ?t2 = "\<lparr>year = 9999, month = 1, day = 1\<rparr>"
  let ?t3 = "\<lparr>year = 9999, month = 12, day = 31\<rparr>"
  let ?book1 = "[(ascii ''Al'', ?al), (ascii ''Bo'', ?bo)]"
  let ?book2 = "[(ascii ''Bo'', ?bj)]"
  have h1: "valid_date ?t1 \<and>
    (\<forall>r \<in> set (values_of ?book1). \<forall>b. birthday r = Some b \<longrightarrow>
        valid_date (birthday_value b) \<and> candidates_exist ?t1 (birthday_value b))"
    by (simp add: window_eval date_eval)
  have h2: "valid_date ?t2 \<and>
    (\<forall>r \<in> set (values_of ?book2). \<forall>b. birthday r = Some b \<longrightarrow>
        valid_date (birthday_value b) \<and> candidates_exist ?t2 (birthday_value b))"
    by (simp add: window_eval date_eval)
  have h3: "valid_date ?t3 \<and>
    (\<forall>r \<in> set (values_of ?book2). \<forall>b. birthday r = Some b \<longrightarrow>
        valid_date (birthday_value b) \<and> candidates_exist ?t3 (birthday_value b))"
    by (simp add: window_eval date_eval)
  have e1: "no_overflow ?t1 (values_of ?book1)"
    "filter (in_window ?t1) (values_of ?book1) = [?al]"
    by (simp_all add: window_eval date_eval)
  have e2: "no_overflow ?t2 (values_of ?book2)"
    "filter (in_window ?t2) (values_of ?book2) = [?bj]"
    by (simp_all add: window_eval date_eval)
  have e3: "\<not> no_overflow ?t3 (values_of ?book2)"
    by (simp add: window_eval date_eval)
  from upcoming_window_exact [of ?t1 ?book1 _ _ _ _ _, THEN conjunct2, THEN conjunct1, THEN mp, OF h1]
  have r1: "get_upcoming_birthdays ?t1 ?book1 = Returned [?al] ?book1"
    by (simp only: e1 if_True)
  from upcoming_window_exact [of ?t2 ?book2 _ _ _ _ _, THEN conjunct2, THEN conjunct1, THEN mp, OF h2]
  have r2: "get_upcoming_birthdays ?t2 ?book2 = Returned [?bj] ?book2"
    by (simp only: e2 if_True)
  from upcoming_window_exact [of ?t3 ?book2 _ _ _ _ _, THEN conjunct2, THEN conjunct1, THEN mp, OF h3]
  have r3: "get_upcoming_birthdays ?t3 ?book2 =
      Raised (ValueError ''year 10000 is out of range'') ?book2"
    by (simp only: e3 if_False)
  from r1 r2 r3 show ?thesis by (intro conjI)
qed

text \<open>
  The claim as stated, for every reference date, fails: on 31.12.9999 the birthday
  02.01 has passed, the candidate of the following year would lie 2 days ahead, and the
  year 10000 is no \<^verbatim>\<open>date\<close>, so the call raises.
\<close>

theorem upcoming_window_counterexample:
  "get_upcoming_birthdays \<lparr>year = 9999, month = 12, day = 31\<rparr>
     [(ascii ''Bo'', \<lparr>name = \<lparr>name_value = ascii ''Bo''\<rparr>, phones = [],
         birthday = Some \<lparr>birthday_value = \<lparr>year = 1990, month = 1, day = 2\<rparr>\<rparr>\<rparr>)]
   = Raised (ValueError ''year 10000 is out of range'')
     [(ascii ''Bo'', \<lparr>name = \<lparr>name_value = ascii ''Bo''\<rparr>, phones = [],
         birthday = Some \<lparr>birthday_value = \<lparr>year = 1990, month = 1, day = 2\<rparr>\<rparr>\<rparr>)] \<and>
   spec_final_delta \<lparr>year = 9999, month = 12, day = 31\<rparr> \<lparr>year = 1990, month = 1, day = 2\<rparr> = 2"
proof (rule conjI)
  have "days_until_birthday \<lparr>year = 9999, month = 12, day = 31\<rparr> \<lparr>year = 1990, month = 1, day = 2\<rparr>
      = Inl (ValueError ''year 10000 is out of range'')"
    by (simp add: days_until_birthday_def date_eval format_i_def decimal.simps digit_chars_def)
  then show "get_upcoming_birthdays \<lparr>year = 9999, month = 12, day = 31\<rparr>
     [(ascii ''Bo'', \<lparr>name = \<lparr>name_value = ascii ''Bo''\<rparr>, phones = [],
         birthday = Some \<lparr>birthday_value = \<lparr>year = 1990, month = 1, day = 2\<rparr>\<rparr>\<rparr>)]
   = Raised (ValueError ''year 10000 is out of range'')
     [(ascii ''Bo'', \<lparr>name = \<lparr>name_value = ascii ''Bo''\<rparr>, phones = [],
         birthday = Some \<lparr>birthday_value = \<lparr>year = 1990, month = 1, day = 2\<rparr>\<rparr>\<rparr>)]"
    by (simp add: get_upcoming_birthdays_def values_of_def)
  show "spec_final_delta \<lparr>year = 9999, month = 12, day = 31\<rparr> \<lparr>year = 1990, month = 1, day = 2\<rparr> = 2"
    by (simp add: spec_final_delta_def date_eval)
qed

text \<open>
  Claim C6 does not hold of the code. \<^verbatim>\<open>add_birthday("29.02.2000")\<close> succeeds, and with
  that record in the book, a call in 2025, a year without a 29 February, raises the
  \<^verbatim>\<open>ValueError\<close> of \<^verbatim>\<open>date.replace\<close> instead of returning a sequence.
\<close>

theorem leap_day_birthday_raises:
  "add_birthday (Record_init (ascii ''Al'')) (ascii ''29.02.2000'') =
     Returned () \<lparr>name = \<lparr>name_value = ascii ''Al''\<rparr>, phones = [],
        birthday = Some \<lparr>birthday_value = \<lparr>year = 2000, month = 2, day = 29\<rparr>\<rparr>\<rparr> \<and>
   get_upcoming_birthdays \<lparr>year = 2025, month = 1, day = 1\<rparr>
     [(ascii ''Al'', \<lparr>name = \<lparr>name_value = ascii ''Al''\<rparr>, phones = [],
         birthday = Some \<lparr>birthday_value = \<lparr>year = 2000, month = 2, day = 29\<rparr>\<rparr>\<rparr>)]
   = Raised (ValueError ''day is out of range for month'')
     [(ascii ''Al'', \<lparr>name = \<lparr>name_value = ascii ''Al''\<rparr>, phones = [],
         birthday = Some \<lparr>birthday_value = \<lparr>year = 2000, month = 2, day = 29\<rparr>\<rparr>\<rparr>)]"
proof (rule conjI)
  have "Birthday_init (ascii ''29.02.2000'') =
      Inr \<lparr>birthday_value = \<lparr>year = 2000, month = 2, day = 29\<rparr>\<rparr>"
    by (rule Birthday_init_leap_day)
  then show "add_birthday (Record_init (ascii ''Al'')) (ascii ''29.02.2000'') =
     Returned () \<lparr>name = \<lparr>name_value = ascii ''Al''\<rparr>, phones = [],
        birthday = Some \<lparr>birthday_value = \<lparr>year = 2000, month = 2, day = 29\<rparr>\<rparr>\<rparr>"
    by (simp add: add_birthday_def Record_init_def)
  have "days_until_birthday \<lparr>year = 2025, month = 1, day = 1\<rparr> \<lparr>year = 2000, month = 2, day = 29\<rparr>
      = Inl (ValueError ''day is out of range for month'')"
    by (simp add: days_until_birthday_def date_eval)
  then show "get_upcoming_birthdays \<lparr>year = 2025, month = 1, day = 1\<rparr>
     [(ascii ''Al'', \<lparr>name = \<lparr>name_value = ascii ''Al''\<rparr>, phones = [],
         birthday = Some \<lparr>birthday_value = \<lparr>year = 2000, month = 2, day = 29\<rparr>\<rparr>\<rparr>)]
   = Raised (ValueError ''day is out of range for month'')
     [(ascii ''Al'', \<lparr>name = \<lparr>name_value = ascii ''Al''\<rparr>, phones = [],
         birthday = Some \<lparr>birthday_value = \<lparr>year = 2000, month = 2, day = 29\<rparr>\<rparr>\<rparr>)]"
    by (simp add: get_upcoming_birthdays_def values_of_def)
qed

text \<open>
  Claim C10. Whether \<^verbatim>\<open>get_upcoming_birthdays\<close> returns or raises, the book it leaves,
  with every record in it, is the book it was called on.
\<close>

theorem upcoming_query_read_only:
  "state_after (get_upcoming_birthdays today book) = book"
  by (simp add: get_upcoming_birthdays_def split: sum.split)

end
